theory Spec2Isabelle
  imports Main "HOL-Library.Word"
begin

unbundle bit_operations_syntax

section \<open>The segregated-list allocator of mm.c\<close>

text \<open>
  The model is for an LP64 target: \<open>sizeof(void *) = 8\<close>, so \<open>size_t\<close>, \<open>uintptr_t\<close> and
  every pointer are 64-bit words and all arithmetic on them wraps modulo \<open>2 ^ 64\<close>.
  Memory maps a byte address to the word stored there; the allocator only ever reads and
  writes whole words (\<open>GET\<close>, \<open>PUT\<close> and the two pointer fields of \<open>struct block_list\<close>).
\<close>

type_synonym word64 = "64 word"
type_synonym addr = "64 word"

subsection \<open>Constants and macros (mm.c, lines 41-67)\<close>

definition WSIZE :: word64 where "WSIZE = 8"
definition DSIZE :: word64 where "DSIZE = 2 * WSIZE"
definition ALIGN_SIZE :: word64 where "ALIGN_SIZE = 8"
definition SEGSIZE :: int where "SEGSIZE = 10"
definition CHUNKSIZE :: word64 where "CHUNKSIZE = push_bit 12 1"
definition NULL :: addr where "NULL = 0"

definition MAX_of :: "word64 \<Rightarrow> word64 \<Rightarrow> word64" where
  "MAX_of x y = (if x > y then x else y)"

definition PACK :: "word64 \<Rightarrow> word64 \<Rightarrow> word64" where
  "PACK sz alloc = sz OR alloc"

record heap_state =
  mem :: "addr \<Rightarrow> word64"
  heap_listp :: addr
  seg_first :: addr
  mem_brk :: addr
  mem_max_addr :: addr

definition GET :: "heap_state \<Rightarrow> addr \<Rightarrow> word64" where
  "GET s p = mem s p"

definition PUT :: "heap_state \<Rightarrow> addr \<Rightarrow> word64 \<Rightarrow> heap_state" where
  "PUT s p val = s\<lparr>mem := (mem s)(p := val)\<rparr>"

definition GET_SIZE :: "heap_state \<Rightarrow> addr \<Rightarrow> word64" where
  "GET_SIZE s p = GET s p AND NOT (ALIGN_SIZE - 1)"

definition GET_ALLOC :: "heap_state \<Rightarrow> addr \<Rightarrow> word64" where
  "GET_ALLOC s p = GET s p AND 1"

definition HDRP :: "addr \<Rightarrow> addr" where
  "HDRP bp = bp - WSIZE"

definition FTRP :: "heap_state \<Rightarrow> addr \<Rightarrow> addr" where
  "FTRP s bp = bp + GET_SIZE s (HDRP bp) - DSIZE"

definition NEXT_BLKP :: "heap_state \<Rightarrow> addr \<Rightarrow> addr" where
  "NEXT_BLKP s bp = bp + GET_SIZE s (bp - WSIZE)"

definition PREV_BLKP :: "heap_state \<Rightarrow> addr \<Rightarrow> addr" where
  "PREV_BLKP s bp = bp - GET_SIZE s (bp - DSIZE)"

subsection \<open>The free-list node (struct block\_list, lines 70-74)\<close>

text \<open>\<open>next_list\<close> is the first pointer of the struct, \<open>prev_list\<close> the second.\<close>

definition next_list :: "heap_state \<Rightarrow> addr \<Rightarrow> addr" where
  "next_list s bp = mem s bp"

definition prev_list :: "heap_state \<Rightarrow> addr \<Rightarrow> addr" where
  "prev_list s bp = mem s (bp + WSIZE)"

definition set_next_list :: "heap_state \<Rightarrow> addr \<Rightarrow> addr \<Rightarrow> heap_state" where
  "set_next_list s bp v = s\<lparr>mem := (mem s)(bp := v)\<rparr>"

definition set_prev_list :: "heap_state \<Rightarrow> addr \<Rightarrow> addr \<Rightarrow> heap_state" where
  "set_prev_list s bp v = s\<lparr>mem := (mem s)(bp + WSIZE := v)\<rparr>"

text \<open>\<open>&seg_first[i]\<close>: the sentinels are 16 bytes apart.\<close>

definition seg_addr :: "heap_state \<Rightarrow> int \<Rightarrow> addr" where
  "seg_addr s i = seg_first s + 2 * WSIZE * word_of_int i"

subsection \<open>seg\_index and next\_power\_of\_2 (lines 574-599, 650-664)\<close>

definition seg_index :: "word64 \<Rightarrow> int" where
  "seg_index sz =
    (if sz \<le> 32 then 0
     else if sz \<le> 64 then 1
     else if sz \<le> 128 then 2
     else if sz \<le> 256 then 3
     else if sz \<le> 512 then 4
     else if sz \<le> 1024 then 5
     else if sz \<le> 2048 then 6
     else if sz \<le> 4096 then 7
     else if sz \<le> 8192 then 8
     else 9)"

definition next_power_of_2 :: "word64 \<Rightarrow> word64" where
  "next_power_of_2 n0 =
    (let n = n0 - 1;
         n = n OR drop_bit 1 n;
         n = n OR drop_bit 2 n;
         n = n OR drop_bit 4 n;
         n = n OR drop_bit 8 n;
         n = n OR drop_bit 16 n
     in n + 1)"

subsection \<open>list\_insert and list\_remove (lines 609-641)\<close>

definition list_insert :: "heap_state \<Rightarrow> addr \<Rightarrow> word64 \<Rightarrow> heap_state" where
  "list_insert s bp sz =
    (let start = seg_addr s (seg_index sz);
         new_after = next_list s start;
         s1 = set_prev_list s bp start;
         s2 = set_next_list s1 bp new_after;
         s3 = set_prev_list s2 new_after bp
     in set_next_list s3 start bp)"

definition list_remove :: "heap_state \<Rightarrow> addr \<Rightarrow> heap_state" where
  "list_remove s bp =
    (let new_prev = prev_list s bp;
         new_next = next_list s bp;
         s1 = set_next_list s new_prev new_next
     in set_prev_list s1 new_next new_prev)"

subsection \<open>The heap-growth primitive\<close>

text \<open>
  Modelled from the spec: \<open>mem_sbrk\<close> of memlib is not part of the sources. The spec's
  \<open>grow_heap(extra_bytes)\<close> returns the start of the newly appended region, contiguous
  with the prior heap end, or fails when no more memory is available; mm.c tests the
  failure as the pointer \<open>(void *)-1\<close>. A failed call leaves the state as it was.
\<close>

definition mem_sbrk :: "heap_state \<Rightarrow> word64 \<Rightarrow> heap_state \<times> addr" where
  "mem_sbrk s incr =
    (if unat (mem_brk s) + unat incr > unat (mem_max_addr s) then (s, - 1)
     else (s\<lparr>mem_brk := mem_brk s + incr\<rparr>, mem_brk s))"

subsection \<open>coalesce (lines 274-317)\<close>

definition coalesce :: "heap_state \<Rightarrow> addr \<Rightarrow> heap_state \<times> addr" where
  "coalesce s bp =
    (let sz = GET_SIZE s (HDRP bp);
         prev_alloc = (GET_ALLOC s (FTRP s (PREV_BLKP s bp)) \<noteq> 0);
         next_alloc = (GET_ALLOC s (HDRP (NEXT_BLKP s bp)) \<noteq> 0)
     in if prev_alloc \<and> next_alloc then
          (list_insert s bp sz, bp)
        else if prev_alloc \<and> \<not> next_alloc then
          (let sz2 = sz + GET_SIZE s (HDRP (NEXT_BLKP s bp));
               s1 = list_remove s (NEXT_BLKP s bp);
               s2 = PUT s1 (HDRP bp) (PACK sz2 0);
               s3 = PUT s2 (FTRP s2 bp) (PACK sz2 0)
           in (list_insert s3 bp sz2, bp))
        else if \<not> prev_alloc \<and> next_alloc then
          (let sz2 = sz + GET_SIZE s (HDRP (PREV_BLKP s bp));
               s1 = list_remove s (PREV_BLKP s bp);
               s2 = PUT s1 (FTRP s1 bp) (PACK sz2 0);
               s3 = PUT s2 (HDRP (PREV_BLKP s2 bp)) (PACK sz2 0);
               bp2 = PREV_BLKP s3 bp
           in (list_insert s3 bp2 sz2, bp2))
        else
          (let sz2 = sz + GET_SIZE s (HDRP (PREV_BLKP s bp)) +
                         GET_SIZE s (FTRP s (NEXT_BLKP s bp));
               s1 = list_remove s (PREV_BLKP s bp);
               s2 = list_remove s1 (NEXT_BLKP s1 bp);
               s3 = PUT s2 (HDRP (PREV_BLKP s2 bp)) (PACK sz2 0);
               s4 = PUT s3 (FTRP s3 (NEXT_BLKP s3 bp)) (PACK sz2 0);
               bp2 = PREV_BLKP s4 bp
           in (list_insert s4 bp2 sz2, bp2)))"

subsection \<open>extend\_heap (lines 326-344)\<close>

definition extend_heap :: "heap_state \<Rightarrow> word64 \<Rightarrow> heap_state \<times> addr" where
  "extend_heap s words =
    (let sz = (if words mod 2 \<noteq> 0 then (words + 1) * WSIZE else words * WSIZE);
         (s1, bp) = mem_sbrk s sz
     in if bp = - 1 then (s1, NULL)
        else
          (let s2 = PUT s1 (HDRP bp) (PACK sz 0);
               s3 = PUT s2 (FTRP s2 bp) (PACK sz 0);
               s4 = PUT s3 (HDRP (NEXT_BLKP s3 bp)) (PACK 0 1)
           in coalesce s4 bp))"

subsection \<open>find\_fit (lines 354-373)\<close>

text \<open>
  The inner loop follows \<open>next_list\<close> pointers until it meets \<open>NULL\<close> or the sentinel;
  on a list whose links form a cycle that avoids the sentinel it does not return, which is
  the value \<open>None\<close>. \<open>Some NULL\<close> is the loop running to its end without a fit.
\<close>

partial_function (option) find_fit_list ::
  "heap_state \<Rightarrow> addr \<Rightarrow> word64 \<Rightarrow> addr \<Rightarrow> addr option" where
  "find_fit_list s sentinel asize bp =
    (if bp = NULL \<or> bp = sentinel then Some NULL
     else if asize \<le> GET_SIZE s (HDRP bp) then Some bp
     else find_fit_list s sentinel asize (next_list s bp))"

function find_fit_from :: "heap_state \<Rightarrow> word64 \<Rightarrow> int \<Rightarrow> addr option" where
  "find_fit_from s asize i =
    (if i < SEGSIZE then
       (case find_fit_list s (seg_addr s i) asize (next_list s (seg_addr s i)) of
          None \<Rightarrow> None
        | Some bp \<Rightarrow> if bp \<noteq> NULL then Some bp else find_fit_from s asize (i + 1))
     else Some NULL)"
  by pat_completeness auto
termination
  by (relation "measure (\<lambda>(s, asize, i). nat (SEGSIZE - i))") auto

definition find_fit :: "heap_state \<Rightarrow> word64 \<Rightarrow> addr option" where
  "find_fit s asize = find_fit_from s asize (seg_index asize)"

subsection \<open>place (lines 384-402)\<close>

definition place :: "heap_state \<Rightarrow> addr \<Rightarrow> word64 \<Rightarrow> heap_state" where
  "place s bp asize =
    (let csize = GET_SIZE s (HDRP bp);
         s1 = list_remove s bp
     in if csize - asize \<ge> 2 * DSIZE then
          (let s2 = PUT s1 (HDRP bp) (PACK asize 1);
               s3 = PUT s2 (FTRP s2 bp) (PACK asize 1);
               bp2 = NEXT_BLKP s3 bp;
               s4 = PUT s3 (HDRP bp2) (PACK (csize - asize) 0);
               s5 = PUT s4 (FTRP s4 bp2) (PACK (csize - asize) 0)
           in list_insert s5 bp2 (csize - asize))
        else
          (let s2 = PUT s1 (HDRP bp) (PACK csize 1)
           in PUT s2 (FTRP s2 bp) (PACK csize 1)))"

subsection \<open>mm\_init (lines 107-135)\<close>

text \<open>The loop \<open>for (i = 0; i < SEGSIZE; i++)\<close> of lines 116-119, from index \<open>i\<close> on.\<close>

function init_sentinels :: "heap_state \<Rightarrow> int \<Rightarrow> heap_state" where
  "init_sentinels s i =
    (if i < SEGSIZE then
       (let s1 = set_next_list s (seg_addr s i) (seg_addr s i);
            s2 = set_prev_list s1 (seg_addr s1 i) (seg_addr s1 i)
        in init_sentinels s2 (i + 1))
     else s)"
  by pat_completeness auto
termination
  by (relation "measure (\<lambda>(s, i). nat (SEGSIZE - i))") auto

definition mm_init :: "heap_state \<Rightarrow> heap_state \<times> int" where
  "mm_init s =
    (let (s1, p) = mem_sbrk s (2 * word_of_int SEGSIZE * WSIZE)
     in if p = - 1 then (s1\<lparr>seg_first := p\<rparr>, - 1)
        else
          (let s2 = init_sentinels (s1\<lparr>seg_first := p\<rparr>) 0;
               (s3, h) = mem_sbrk s2 (4 * WSIZE)
           in if h = - 1 then (s3\<lparr>heap_listp := h\<rparr>, - 1)
              else
                (let s4 = PUT s3 h 0;
                     s5 = PUT s4 (h + 1 * WSIZE) (PACK DSIZE 1);
                     s6 = PUT s5 (h + 2 * WSIZE) (PACK DSIZE 1);
                     s7 = PUT s6 (h + 3 * WSIZE) (PACK 0 1);
                     s8 = s7\<lparr>heap_listp := h + 2 * WSIZE\<rparr>;
                     (s9, bp) = extend_heap s8 (CHUNKSIZE div WSIZE)
                 in if bp = NULL then (s9, - 1) else (s9, 0))))"

subsection \<open>mm\_malloc (lines 146-180)\<close>

text \<open>The adjustment of a payload size to a block size, written twice in the source
  (lines 161-165 and 235-239).\<close>

definition block_asize :: "word64 \<Rightarrow> word64" where
  "block_asize sz =
    (if sz \<le> DSIZE then 2 * DSIZE
     else ALIGN_SIZE * ((sz + DSIZE + (ALIGN_SIZE - 1)) div ALIGN_SIZE))"

text \<open>Lines 157-166: the rounding of small requests, then the adjustment.\<close>

definition malloc_asize :: "word64 \<Rightarrow> word64" where
  "malloc_asize sz =
    block_asize (if sz \<le> 16 * DSIZE then next_power_of_2 sz else sz)"

definition mm_malloc :: "heap_state \<Rightarrow> word64 \<Rightarrow> (heap_state \<times> addr) option" where
  "mm_malloc s sz =
    (if sz = 0 then Some (s, NULL)
     else
       (let asize = malloc_asize sz
        in case find_fit s asize of
             None \<Rightarrow> None
           | Some bp \<Rightarrow>
               if bp \<noteq> NULL then Some (place s bp asize, bp)
               else
                 (let extendsize = MAX_of asize CHUNKSIZE;
                      (s1, bp1) = extend_heap s (extendsize div WSIZE)
                  in if bp1 = NULL then Some (s1, NULL)
                     else Some (place s1 bp1 asize, bp1))))"

subsection \<open>mm\_free (lines 189-203)\<close>

definition mm_free :: "heap_state \<Rightarrow> addr \<Rightarrow> heap_state" where
  "mm_free s bp =
    (if bp = NULL then s
     else
       (let sz = GET_SIZE s (HDRP bp);
            s1 = PUT s (HDRP bp) (PACK sz 0);
            s2 = PUT s1 (FTRP s1 bp) (PACK sz 0)
        in fst (coalesce s2 bp)))"

subsection \<open>mm\_realloc (lines 218-260)\<close>

text \<open>
  \<open>memcpy\<close> on the word-addressed memory: the whole words first, then the low
  \<open>n mod 8\<close> bytes of the last word (little endian). Source and destination do not
  overlap in a call the C standard defines, so the source is read from the memory as it
  was before the copy.
\<close>

fun copy_words :: "(addr \<Rightarrow> word64) \<Rightarrow> (addr \<Rightarrow> word64) \<Rightarrow> addr \<Rightarrow> addr \<Rightarrow> nat
    \<Rightarrow> (addr \<Rightarrow> word64)" where
  "copy_words src m d p 0 = m"
| "copy_words src m d p (Suc k) = copy_words src (m(d := src p)) (d + 8) (p + 8) k"

definition memcpy :: "heap_state \<Rightarrow> addr \<Rightarrow> addr \<Rightarrow> word64 \<Rightarrow> heap_state" where
  "memcpy s dst src n =
    (let q = unat n div 8;
         r = unat n mod 8;
         m1 = copy_words (mem s) (mem s) dst src q;
         d = dst + 8 * word_of_nat q;
         p = src + 8 * word_of_nat q;
         m2 = (if r = 0 then m1
               else m1(d := (mem s p AND mask (8 * r)) OR (m1 d AND NOT (mask (8 * r)))))
     in s\<lparr>mem := m2\<rparr>)"

definition mm_realloc :: "heap_state \<Rightarrow> addr \<Rightarrow> word64 \<Rightarrow> (heap_state \<times> addr) option" where
  "mm_realloc s ptr sz =
    (if sz = 0 then Some (mm_free s ptr, NULL)
     else if ptr = NULL then mm_malloc s sz
     else
       (let asize = block_asize sz;
            oldsize = GET_SIZE s (HDRP ptr) - DSIZE
        in if asize < oldsize + DSIZE then Some (s, ptr)
           else
             (let oldsize2 = (if sz < oldsize then sz else oldsize)
              in case mm_malloc s (word_of_int SEGSIZE * sz) of
                   None \<Rightarrow> None
                 | Some (s1, newptr) \<Rightarrow>
                     if newptr = NULL then Some (s1, NULL)
                     else
                       (let s2 = memcpy s1 newptr ptr oldsize2
                        in Some (mm_free s2 ptr, newptr)))))"

subsection \<open>The adjacency scan of checkheap (lines 469-485)\<close>

text \<open>
  The loop \<open>while (start != next)\<close> of \<open>checkheap\<close>, run for at most the given number
  of iterations: the number of times the diagnostic is printed, and whether the loop has
  been left. Note that the loop reads the words at \<open>current\<close> and \<open>next\<close> themselves.
\<close>

fun checkheap_scan :: "nat \<Rightarrow> heap_state \<Rightarrow> addr \<Rightarrow> addr \<Rightarrow> addr \<Rightarrow> nat \<times> bool" where
  "checkheap_scan 0 s start current nxt = (0, start = nxt)"
| "checkheap_scan (Suc k) s start current nxt =
    (if start \<noteq> nxt then
       (let d = (if GET_ALLOC s current \<noteq> 0 \<and> \<not> (GET_ALLOC s nxt \<noteq> 0) then 1 else 0);
            (n, fin) = checkheap_scan k s start nxt (NEXT_BLKP s nxt)
        in (d + n, fin))
     else (0, True))"

definition checkheap_adjacent :: "nat \<Rightarrow> heap_state \<Rightarrow> nat \<times> bool" where
  "checkheap_adjacent fuel s =
    checkheap_scan fuel s (heap_listp s) (heap_listp s) (NEXT_BLKP s (heap_listp s))"

subsection \<open>Auxiliary notions used in the statements and proofs\<close>

text \<open>The least power of two that is at least \<open>n\<close>, for \<open>n \<le> 256\<close>, on naturals and on
  integers.\<close>

definition pow2_ceiling :: "nat \<Rightarrow> nat" where
  "pow2_ceiling n =
    (if n \<le> 1 then 1 else if n \<le> 2 then 2 else if n \<le> 4 then 4 else if n \<le> 8 then 8
     else if n \<le> 16 then 16 else if n \<le> 32 then 32 else if n \<le> 64 then 64
     else if n \<le> 128 then 128 else 256)"

definition pow2_ceiling_int :: "int \<Rightarrow> int" where
  "pow2_ceiling_int n =
    (if n \<le> 1 then 1 else if n \<le> 2 then 2 else if n \<le> 4 then 4 else if n \<le> 8 then 8
     else if n \<le> 16 then 16 else if n \<le> 32 then 32 else if n \<le> 64 then 64
     else if n \<le> 128 then 128 else 256)"

text \<open>
  A concrete machine state before \<open>mm_init\<close>: an arena of 20 MB starting at address
  \<open>0x10000\<close>, all of it zero, as memlib hands it to the allocator.
\<close>

definition heap0 :: heap_state where
  "heap0 = \<lparr>mem = (\<lambda>_. 0), heap_listp = 0, seg_first = 0,
            mem_brk = 0x10000, mem_max_addr = 0x1410000\<rparr>"

text \<open>The state and the pointer an allocation leaves (the state is kept when the search of
  \<open>find_fit\<close> does not return).\<close>

definition malloc_state :: "heap_state \<Rightarrow> word64 \<Rightarrow> heap_state" where
  "malloc_state s n = (case mm_malloc s n of Some (s1, p) \<Rightarrow> s1 | None \<Rightarrow> s)"

definition malloc_ptr :: "heap_state \<Rightarrow> word64 \<Rightarrow> addr" where
  "malloc_ptr s n = (case mm_malloc s n of Some (s1, p) \<Rightarrow> p | None \<Rightarrow> NULL)"

text \<open>The heap right after a successful \<open>mm_init\<close>, on the arena \<open>heap0\<close>.\<close>

definition heap_init :: heap_state where
  "heap_init = fst (mm_init heap0)"

text \<open>
  The nodes of a size-class list, followed through \<open>next_list\<close> from the node \<open>bp\<close> until
  \<open>NULL\<close> or the sentinel, as \<open>find_fit\<close> walks it; \<open>None\<close> when the walk is longer than the
  fuel.
\<close>

fun list_nodes :: "nat \<Rightarrow> heap_state \<Rightarrow> addr \<Rightarrow> addr \<Rightarrow> addr list option" where
  "list_nodes 0 s sentinel bp = None"
| "list_nodes (Suc k) s sentinel bp =
    (if bp = NULL \<or> bp = sentinel then Some []
     else map_option (Cons bp) (list_nodes k s sentinel (next_list s bp)))"

definition class_nodes :: "nat \<Rightarrow> heap_state \<Rightarrow> int \<Rightarrow> addr list option" where
  "class_nodes fuel s i = list_nodes fuel s (seg_addr s i) (next_list s (seg_addr s i))"

text \<open>
  The physical chain of blocks, from the block \<open>bp\<close> to the first header of size 0 (the
  epilogue), as the last loop of \<open>checkheap\<close> walks it: payload address, size and
  allocated bit of each block.
\<close>

fun heap_blocks :: "nat \<Rightarrow> heap_state \<Rightarrow> addr \<Rightarrow> (addr \<times> word64 \<times> bool) list option" where
  "heap_blocks 0 s bp = None"
| "heap_blocks (Suc k) s bp =
    (if GET_SIZE s (HDRP bp) > 0 then
       map_option (Cons (bp, GET_SIZE s (HDRP bp), GET_ALLOC s (HDRP bp) \<noteq> 0))
         (heap_blocks k s (NEXT_BLKP s bp))
     else Some [])"

text \<open>
  A well-formed circular doubly-linked list: from the sentinel the \<open>next_list\<close> pointers
  run through the nodes \<open>ns\<close> and back to the sentinel, every \<open>prev_list\<close> pointer points
  back to the predecessor, and no node's \<open>prev_list\<close> word is another node's \<open>next_list\<close>
  word.
\<close>

fun dll_chain :: "heap_state \<Rightarrow> addr \<Rightarrow> addr \<Rightarrow> addr list \<Rightarrow> bool" where
  "dll_chain s sentinel p [] = (next_list s p = sentinel \<and> prev_list s sentinel = p)"
| "dll_chain s sentinel p (n # ns) =
    (next_list s p = n \<and> prev_list s n = p \<and> dll_chain s sentinel n ns)"

definition circular_list :: "heap_state \<Rightarrow> addr \<Rightarrow> addr list \<Rightarrow> bool" where
  "circular_list s sentinel ns =
    (dll_chain s sentinel sentinel ns \<and> distinct (sentinel # ns) \<and>
     (\<forall>a \<in> set (sentinel # ns). \<forall>b \<in> set (sentinel # ns). a + WSIZE \<noteq> b))"

text \<open>The node \<open>bp\<close> shares no word with the nodes of a list.\<close>

definition node_apart :: "addr \<Rightarrow> addr list \<Rightarrow> bool" where
  "node_apart bp ns = (\<forall>n \<in> set ns. bp \<noteq> n \<and> bp + WSIZE \<noteq> n \<and> bp \<noteq> n + WSIZE)"

text \<open>
  The failure of an allocation as the spec's error taxonomy has it: the request is zero
  (it is ignored), or no free block fits and the heap-growth primitive cannot satisfy the
  extension \<open>mm_malloc\<close> asks for.
\<close>

definition malloc_out_of_memory :: "heap_state \<Rightarrow> word64 \<Rightarrow> bool" where
  "malloc_out_of_memory s n =
    (n = 0 \<or>
     (find_fit s (malloc_asize n) = Some NULL \<and>
      mem_sbrk s
        (let words = MAX_of (malloc_asize n) CHUNKSIZE div WSIZE
         in if words mod 2 \<noteq> 0 then (words + 1) * WSIZE else words * WSIZE) = (s, - 1)))"

text \<open>
  Coalescing as the spec describes it (section 4.4), every address and size taken from
  the state at the call: the Free neighbours are removed from their lists, the block that
  starts at the predecessor (when it is Free) or at \<open>bp\<close> gets the sum of the sizes in
  its header and footer, and it is inserted into the list of its final size.
\<close>

definition coalesce_spec :: "heap_state \<Rightarrow> addr \<Rightarrow> heap_state \<times> addr" where
  "coalesce_spec s bp =
    (let prev = PREV_BLKP s bp;
         nxt = NEXT_BLKP s bp;
         prev_free = (GET_ALLOC s (FTRP s prev) = 0);
         next_free = (GET_ALLOC s (HDRP nxt) = 0);
         total = GET_SIZE s (HDRP bp)
                 + (if prev_free then GET_SIZE s (HDRP prev) else 0)
                 + (if next_free then GET_SIZE s (HDRP nxt) else 0);
         start = (if prev_free then prev else bp);
         s1 = (if prev_free then list_remove s prev else s);
         s2 = (if next_free then list_remove s1 nxt else s1);
         s3 = (if prev_free \<or> next_free then
                 PUT (PUT s2 (HDRP start) (PACK total 0)) (start + total - DSIZE) (PACK total 0)
               else s2)
     in (list_insert s3 start total, start))"

text \<open>
  What coalescing needs of the block \<open>bp\<close> and its two neighbours: the block has at least
  the minimum block size; a Free neighbour has matching sizes in header and footer, lies
  inside the address space, and the two words that unlinking it writes (the \<open>next_list\<close>
  word of its list predecessor, the \<open>prev_list\<close> word of its list successor) are none of
  the boundary tags the merge reads; and the list neighbours of the predecessor do not
  overlap the successor's node.
\<close>

definition coalesce_wf :: "heap_state \<Rightarrow> addr \<Rightarrow> bool" where
  "coalesce_wf s bp =
    (let sz = GET_SIZE s (HDRP bp);
         prev = PREV_BLKP s bp;
         nxt = NEXT_BLKP s bp;
         psz = GET_SIZE s (bp - DSIZE);
         nsz = GET_SIZE s (HDRP nxt);
         prev_free = (GET_ALLOC s (FTRP s prev) = 0);
         next_free = (GET_ALLOC s (HDRP nxt) = 0);
         tags = {bp - DSIZE, HDRP bp, HDRP nxt}
     in 2 * DSIZE \<le> sz
        \<and> (prev_free \<longrightarrow>
              GET_SIZE s (HDRP prev) = psz \<and> 2 * DSIZE \<le> psz \<and> unat psz \<le> unat bp
              \<and> prev_list s prev \<notin> tags \<and> next_list s prev + WSIZE \<notin> tags)
        \<and> (next_free \<longrightarrow>
              GET_SIZE s (FTRP s nxt) = nsz \<and> unat bp + unat sz + unat nsz < 2 ^ 64
              \<and> prev_list s nxt \<notin> tags \<and> next_list s nxt + WSIZE \<notin> tags)
        \<and> (prev_free \<and> next_free \<longrightarrow>
              prev_list s prev \<noteq> nxt + WSIZE \<and> next_list s prev + WSIZE \<noteq> nxt))"

text \<open>
  A heap in which three blocks of 16 bytes were allocated after \<open>mm_init\<close> (at \<open>0x100C0\<close>,
  \<open>0x100E0\<close> and \<open>0x10100\<close>) and the first and the third were freed; and the same heap
  after \<open>mm_free\<close> has cleared the allocated bit of the second block, at its call of
  \<open>coalesce\<close>.
\<close>

definition heap_two_freed :: heap_state where
  "heap_two_freed =
    mm_free (mm_free (malloc_state (malloc_state (malloc_state heap_init 16) 16) 16)
      0x100C0) 0x10100"

definition heap_at_coalesce :: heap_state where
  "heap_at_coalesce =
    (let sz = GET_SIZE heap_two_freed (HDRP 0x100E0);
         s1 = PUT heap_two_freed (HDRP 0x100E0) (PACK sz 0)
     in PUT s1 (FTRP s1 0x100E0) (PACK sz 0))"

text \<open>
  The heap after \<open>mm_init\<close>, a request of \<open>SIZE_MAX\<close> bytes (answered with the block at
  \<open>0x100C0\<close>), a request of 16 bytes (the block at \<open>0x100D0\<close>) and \<open>mm_free\<close> of the
  first block.
\<close>

definition heap_overflowed :: heap_state where
  "heap_overflowed =
    mm_free (malloc_state (malloc_state heap_init 0xFFFFFFFFFFFFFFFF) 16) 0x100C0"

text \<open>
  An arena that ends right after the first chunk of \<open>mm_init\<close>, so that the heap cannot
  grow any further; and the heap in it after \<open>mm_init\<close> and one allocation of 16 bytes.
\<close>

definition heap_full :: heap_state where
  "heap_full = heap0\<lparr>mem_max_addr := 0x110C0\<rparr>"

definition heap_exhausted :: heap_state where
  "heap_exhausted = malloc_state (fst (mm_init heap_full)) 16"

text \<open>
  The state and the block \<open>extend_heap\<close> passes to \<open>coalesce\<close> (lines 334-340): the break
  moved, the header and footer of the new Free block and the new epilogue header written.
\<close>

definition extend_heap_tags :: "heap_state \<Rightarrow> word64 \<Rightarrow> heap_state \<times> addr" where
  "extend_heap_tags s words =
    (let sz = (if words mod 2 \<noteq> 0 then (words + 1) * WSIZE else words * WSIZE);
         (s1, bp) = mem_sbrk s sz;
         s2 = PUT s1 (HDRP bp) (PACK sz 0);
         s3 = PUT s2 (FTRP s2 bp) (PACK sz 0);
         s4 = PUT s3 (HDRP (NEXT_BLKP s3 bp)) (PACK 0 1)
     in (s4, bp))"


section \<open>Size classes\<close>


lemma seg_index_mono: "a \<le> b \<Longrightarrow> seg_index a \<le> seg_index b"
  unfolding seg_index_def by (auto simp: word_le_nat_alt)

text \<open>
  Claim C6. \<open>seg_index\<close> (the spec's classify) is monotonic non-decreasing in the size, and
  it follows the documented thresholds: sizes up to 32 are class 0, up to 64 class 1, up to
  128 class 2, up to 256 class 3, up to 512 class 4, up to 1024 class 5, up to 2048
  class 6, up to 4096 class 7, up to 8192 class 8, and every larger size is class 9.
  Sizes are compared as unsigned 64-bit values, as \<open>size_t\<close> is.
\<close>

theorem seg_index_monotone_thresholds:
  "(a \<le> b \<longrightarrow> seg_index a \<le> seg_index b)
   \<and> (sz \<le> 32 \<longrightarrow> seg_index sz = 0)
   \<and> (32 < sz \<and> sz \<le> 64 \<longrightarrow> seg_index sz = 1)
   \<and> (64 < sz \<and> sz \<le> 128 \<longrightarrow> seg_index sz = 2)
   \<and> (128 < sz \<and> sz \<le> 256 \<longrightarrow> seg_index sz = 3)
   \<and> (256 < sz \<and> sz \<le> 512 \<longrightarrow> seg_index sz = 4)
   \<and> (512 < sz \<and> sz \<le> 1024 \<longrightarrow> seg_index sz = 5)
   \<and> (1024 < sz \<and> sz \<le> 2048 \<longrightarrow> seg_index sz = 6)
   \<and> (2048 < sz \<and> sz \<le> 4096 \<longrightarrow> seg_index sz = 7)
   \<and> (4096 < sz \<and> sz \<le> 8192 \<longrightarrow> seg_index sz = 8)
   \<and> (8192 < sz \<longrightarrow> seg_index sz = 9)"
proof -
  have thresholds: "(sz \<le> 32 \<longrightarrow> seg_index sz = 0)
   \<and> (32 < sz \<and> sz \<le> 64 \<longrightarrow> seg_index sz = 1)
   \<and> (64 < sz \<and> sz \<le> 128 \<longrightarrow> seg_index sz = 2)
   \<and> (128 < sz \<and> sz \<le> 256 \<longrightarrow> seg_index sz = 3)
   \<and> (256 < sz \<and> sz \<le> 512 \<longrightarrow> seg_index sz = 4)
   \<and> (512 < sz \<and> sz \<le> 1024 \<longrightarrow> seg_index sz = 5)
   \<and> (1024 < sz \<and> sz \<le> 2048 \<longrightarrow> seg_index sz = 6)
   \<and> (2048 < sz \<and> sz \<le> 4096 \<longrightarrow> seg_index sz = 7)
   \<and> (4096 < sz \<and> sz \<le> 8192 \<longrightarrow> seg_index sz = 8)
   \<and> (8192 < sz \<longrightarrow> seg_index sz = 9)"
    unfolding seg_index_def by (auto simp: word_le_nat_alt word_less_nat_alt)
  show ?thesis using seg_index_mono[of a b] thresholds by blast
qed

theorem seg_index_monotone_thresholds_witness:
  "(100 :: word64) \<le> 5000 \<and> seg_index 100 \<le> seg_index 5000
   \<and> seg_index 32 = 0 \<and> seg_index 33 = 1 \<and> seg_index 128 = 2 \<and> seg_index 129 = 3
   \<and> seg_index 512 = 4 \<and> seg_index 1000 = 5 \<and> seg_index 2048 = 6 \<and> seg_index 4096 = 7
   \<and> seg_index 8192 = 8 \<and> seg_index 8193 = 9"
  using seg_index_monotone_thresholds[of 100 5000 32]
    seg_index_monotone_thresholds[of 0 0 33]
    seg_index_monotone_thresholds[of 0 0 128]
    seg_index_monotone_thresholds[of 0 0 129]
    seg_index_monotone_thresholds[of 0 0 512]
    seg_index_monotone_thresholds[of 0 0 1000]
    seg_index_monotone_thresholds[of 0 0 2048]
    seg_index_monotone_thresholds[of 0 0 4096]
    seg_index_monotone_thresholds[of 0 0 8192]
    seg_index_monotone_thresholds[of 0 0 8193]
  by simp




section \<open>Request rounding in mm\_malloc\<close>

lemma next_power_of_2_table:
  "\<forall>n \<in> set [1..256]. next_power_of_2 (word_of_int n) = word_of_int (pow2_ceiling_int n)"
  by code_simp

lemma pow2_ceiling_int_nat: "pow2_ceiling_int (int n) = int (pow2_ceiling n)"
  by (simp add: pow2_ceiling_int_def pow2_ceiling_def)

lemma next_power_of_2_small:
  assumes "1 \<le> sz" "sz \<le> 256"
  shows "next_power_of_2 sz = word_of_nat (pow2_ceiling (unat sz))"
proof -
  have "1 \<le> uint sz" "uint sz \<le> 256"
    using assms by (simp_all add: word_le_def)
  then have "uint sz \<in> set [1..256]" by simp
  then have "next_power_of_2 (word_of_int (uint sz)) = word_of_int (pow2_ceiling_int (uint sz))"
    using next_power_of_2_table by blast
  moreover have "pow2_ceiling_int (uint sz) = int (pow2_ceiling (unat sz))"
    using pow2_ceiling_int_nat[of "unat sz"] by simp
  ultimately show ?thesis by simp
qed

lemma pow2_ceiling_cases: "pow2_ceiling n \<in> {1, 2, 4, 8, 16, 32, 64, 128, 256}"
  unfolding pow2_ceiling_def by simp

lemma pow2_ceiling_pow: "\<exists>k. pow2_ceiling n = 2 ^ k"
proof -
  have "pow2_ceiling n \<in> {2^0, 2^1, 2^2, 2^3, 2^4, 2^5, 2^6, 2^7, 2^8}"
    unfolding pow2_ceiling_def by simp
  then show ?thesis by blast
qed

lemma pow2_ceiling_ge: "n \<le> 256 \<Longrightarrow> n \<le> pow2_ceiling n"
  unfolding pow2_ceiling_def by simp

lemma pow2_ceiling_half: "1 < n \<Longrightarrow> pow2_ceiling n < 2 * n"
  unfolding pow2_ceiling_def by simp

lemma pow2_ceiling_least:
  assumes "n \<le> 2 ^ j" "1 \<le> n"
  shows "pow2_ceiling n \<le> 2 ^ j"
proof (cases "n = 1")
  case True
  then show ?thesis by (simp add: pow2_ceiling_def)
next
  case False
  obtain k where k: "pow2_ceiling n = 2 ^ k" using pow2_ceiling_pow by blast
  have "(2::nat) ^ k < 2 * 2 ^ j" using pow2_ceiling_half[of n] assms False k by simp
  then have "(2::nat) ^ k < 2 ^ (Suc j)" by simp
  then have "k < Suc j" using power_less_imp_less_exp[of 2 k "Suc j"] by simp
  then have "(2::nat) ^ k \<le> 2 ^ j" by (simp add: power_increasing)
  then show ?thesis using k by simp
qed

lemma block_asize_pow2:
  assumes "p \<in> {1, 2, 4, 8, 16, 32, 64, 128, 256::nat}"
  shows "block_asize (word_of_nat p) = (if p \<le> 16 then 32 else word_of_nat p + 16)"
    and "(word_of_nat p :: word64) \<le> DSIZE \<longleftrightarrow> p \<le> 16"
    and "unat (word_of_nat p :: word64) = p"
  using assms by (auto simp: block_asize_def DSIZE_def WSIZE_def ALIGN_SIZE_def)

text \<open>
  Claim C7. For every request \<open>sz\<close> with \<open>1 \<le> sz \<le> 16 * DSIZE\<close>, \<open>mm_malloc\<close> first rounds
  the request to \<open>next_power_of_2 sz\<close>, which is a power of two, is at least \<open>sz\<close>, and is
  the least such power. The block size \<open>asize\<close> is then \<open>2 * DSIZE\<close> when the rounded size is
  at most \<open>DSIZE\<close>, and otherwise the rounded size plus \<open>DSIZE\<close>, rounded up to a multiple of
  \<open>ALIGN_SIZE = 8\<close> (stated on natural numbers, so without wrap-around). In both cases
  \<open>asize\<close> is at least \<open>2 * DSIZE\<close>. This \<open>asize\<close> is the size \<open>mm_malloc\<close> works with in
  every state: it is the size it passes to \<open>find_fit\<close>, the size it extends the heap by
  (when above \<open>CHUNKSIZE\<close>), and the size it passes to \<open>place\<close>.
\<close>

theorem malloc_small_request_rounding:
  assumes "1 \<le> sz" and "sz \<le> 16 * DSIZE"
  shows "(\<exists>k. unat (next_power_of_2 sz) = 2 ^ k)
       \<and> unat sz \<le> unat (next_power_of_2 sz)
       \<and> (\<forall>j. unat sz \<le> 2 ^ j \<longrightarrow> unat (next_power_of_2 sz) \<le> 2 ^ j)
       \<and> malloc_asize sz = block_asize (next_power_of_2 sz)
       \<and> (next_power_of_2 sz \<le> DSIZE \<longrightarrow> malloc_asize sz = 2 * DSIZE)
       \<and> (\<not> next_power_of_2 sz \<le> DSIZE \<longrightarrow>
            unat (malloc_asize sz) =
              unat ALIGN_SIZE *
                ((unat (next_power_of_2 sz) + unat DSIZE + (unat ALIGN_SIZE - 1))
                   div unat ALIGN_SIZE))
       \<and> 2 * DSIZE \<le> malloc_asize sz
       \<and> (\<forall>s. mm_malloc s sz =
            (let asize = block_asize (next_power_of_2 sz)
             in case find_fit s asize of
                  None \<Rightarrow> None
                | Some bp \<Rightarrow>
                    if bp \<noteq> NULL then Some (place s bp asize, bp)
                    else
                      (let extendsize = MAX_of asize CHUNKSIZE;
                           (s1, bp1) = extend_heap s (extendsize div WSIZE)
                       in if bp1 = NULL then Some (s1, NULL)
                          else Some (place s1 bp1 asize, bp1))))"
proof -
  let ?p = "pow2_ceiling (unat sz)"
  have le: "sz \<le> 256" using assms(2) by (simp add: DSIZE_def WSIZE_def)
  have r: "next_power_of_2 sz = word_of_nat ?p"
    using next_power_of_2_small[OF assms(1) le] .
  have pc: "?p \<in> {1, 2, 4, 8, 16, 32, 64, 128, 256}" by (rule pow2_ceiling_cases)
  have u: "unat (word_of_nat ?p :: word64) = ?p" using block_asize_pow2(3)[OF pc] .
  have n1: "1 \<le> unat sz" using assms(1) by (simp add: word_le_nat_alt)
  have n2: "unat sz \<le> 256" using le by (simp add: word_le_nat_alt)
  have c1: "\<exists>k. unat (next_power_of_2 sz) = 2 ^ k"
    using pow2_ceiling_pow[of "unat sz"] r u by simp
  have c2: "unat sz \<le> unat (next_power_of_2 sz)"
    using pow2_ceiling_ge[OF n2] r u by simp
  have c3: "\<forall>j. unat sz \<le> 2 ^ j \<longrightarrow> unat (next_power_of_2 sz) \<le> 2 ^ j"
    using pow2_ceiling_least[OF _ n1] r u by simp
  have c4: "malloc_asize sz = block_asize (next_power_of_2 sz)"
    using assms(2) by (simp add: malloc_asize_def)
  have a: "block_asize (word_of_nat ?p) = (if ?p \<le> 16 then 32 else word_of_nat ?p + 16)"
    using block_asize_pow2(1)[OF pc] .
  have d: "(word_of_nat ?p :: word64) \<le> DSIZE \<longleftrightarrow> ?p \<le> 16"
    using block_asize_pow2(2)[OF pc] .
  have c5: "next_power_of_2 sz \<le> DSIZE \<longrightarrow> malloc_asize sz = 2 * DSIZE"
    using c4 r a d by (simp add: DSIZE_def WSIZE_def)
  have c6: "\<not> next_power_of_2 sz \<le> DSIZE \<longrightarrow>
            unat (malloc_asize sz) =
              unat ALIGN_SIZE *
                ((unat (next_power_of_2 sz) + unat DSIZE + (unat ALIGN_SIZE - 1))
                   div unat ALIGN_SIZE)"
  proof
    assume "\<not> next_power_of_2 sz \<le> DSIZE"
    then have big: "\<not> ?p \<le> 16" using r d by simp
    then have pc': "?p \<in> {32, 64, 128, 256}" using pc by auto
    have "malloc_asize sz = word_of_nat ?p + 16" using c4 r a big by simp
    then have "unat (malloc_asize sz) = ?p + 16" using pc' by auto
    moreover have "unat ALIGN_SIZE *
        ((?p + unat DSIZE + (unat ALIGN_SIZE - 1)) div unat ALIGN_SIZE) = ?p + 16"
      using pc' by (auto simp: ALIGN_SIZE_def DSIZE_def WSIZE_def)
    ultimately show "unat (malloc_asize sz) =
              unat ALIGN_SIZE *
                ((unat (next_power_of_2 sz) + unat DSIZE + (unat ALIGN_SIZE - 1))
                   div unat ALIGN_SIZE)"
      using r u by simp
  qed
  have c7: "2 * DSIZE \<le> malloc_asize sz"
    using c4 r a pc by (auto simp: DSIZE_def WSIZE_def)
  have nz: "sz \<noteq> 0" using assms(1) by auto
  have c8: "\<forall>s. mm_malloc s sz =
            (let asize = block_asize (next_power_of_2 sz)
             in case find_fit s asize of
                  None \<Rightarrow> None
                | Some bp \<Rightarrow>
                    if bp \<noteq> NULL then Some (place s bp asize, bp)
                    else
                      (let extendsize = MAX_of asize CHUNKSIZE;
                           (s1, bp1) = extend_heap s (extendsize div WSIZE)
                       in if bp1 = NULL then Some (s1, NULL)
                          else Some (place s1 bp1 asize, bp1)))"
    unfolding mm_malloc_def c4 using nz by simp
  show ?thesis
    apply (intro conjI)
    apply (rule c1 c2 c3 c4 c5 c6 c7 c8)+
    done
qed



section \<open>Runs on a concrete arena\<close>

text \<open>
  The allocator run on the arena \<open>heap0\<close>; every state is computed by rewriting with the
  definitions. They serve the examples below. Addresses print in decimal: \<open>65536 = 0x10000\<close>
  is the table of sentinels, \<open>65712 = 0x100B0\<close> is \<open>heap_listp\<close>, \<open>65728 = 0x100C0\<close> the
  first block.
\<close>

lemmas alloc_defs = WSIZE_def DSIZE_def ALIGN_SIZE_def SEGSIZE_def CHUNKSIZE_def NULL_def
  MAX_of_def PACK_def GET_def PUT_def GET_SIZE_def GET_ALLOC_def HDRP_def FTRP_def
  NEXT_BLKP_def PREV_BLKP_def next_list_def prev_list_def set_next_list_def
  set_prev_list_def seg_addr_def seg_index_def list_insert_def list_remove_def mem_sbrk_def
  coalesce_def extend_heap_def place_def mm_init_def find_fit_def find_fit_list.simps
  mm_malloc_def mm_free_def mm_realloc_def block_asize_def malloc_asize_def
  next_power_of_2_def memcpy_def malloc_state_def malloc_ptr_def Let_def

lemmas eval_congs = let_weak_cong prod.case_cong_weak option.case_cong_weak

lemma copy_words_numeral:
  "copy_words src m d p (numeral k) =
     copy_words src (m(d := src p)) (d + 8) (p + 8) (pred_numeral k)"
  by (simp add: numeral_eq_Suc)


lemma heap_init_eval:
  "heap_init = \<lparr>mem = (\<lambda>_. 0) (65536 := 65536, 65544 := 65536, 65552 :=
     65552, 65560 := 65552, 65568 := 65568, 65576 := 65568, 65584 := 65584, 65592 := 65584,
     65600 := 65600, 65608 := 65600, 65616 := 65616, 65624 := 65616, 65632 := 65632, 65640
     := 65632, 65664 := 65664, 65672 := 65664, 65680 := 65680, 65688 := 65680, 65696 := 0,
     65704 := 17, 65712 := 17, 65720 := 4096, 69808 := 4096, 69816 := 1, 65736 := 65648,
     65728 := 65648, 65656 := 65728, 65648 := 65728), heap_listp = 65712, seg_first = 65536,
     mem_brk = 69824, mem_max_addr = 21037056\<rparr>"
  unfolding heap_init_def
  by (simp add: alloc_defs heap0_def cong: eval_congs)

lemma malloc_16_eval:
  "mm_malloc heap_init 16 = Some (\<lparr>mem = (\<lambda>_. 0) (65536 := 65536, 65544 :=
     65536, 65552 := 65552, 65560 := 65552, 65568 := 65568, 65576 := 65568, 65584 := 65584,
     65592 := 65584, 65600 := 65600, 65608 := 65600, 65616 := 65616, 65624 := 65616, 65632
     := 65632, 65640 := 65632, 65664 := 65664, 65672 := 65664, 65680 := 65680, 65688 :=
     65680, 65696 := 0, 65704 := 17, 65712 := 17, 69816 := 1, 65736 := 65648, 65728 :=
     65648, 65720 := 33, 65744 := 33, 65752 := 4064, 69808 := 4064, 65768 := 65648, 65760 :=
     65648, 65656 := 65760, 65648 := 65760), heap_listp = 65712, seg_first = 65536, mem_brk
     = 69824, mem_max_addr = 21037056\<rparr>, 65728)"
  unfolding heap_init_eval
  by (simp add: alloc_defs cong: eval_congs)

lemma realloc_16_eval:
  "mm_realloc (malloc_state heap_init 16) 65728 16 = Some (\<lparr>mem = (\<lambda>_. 0)
     (65552 := 65552, 65560 := 65552, 65568 := 65568, 65576 := 65568, 65584 := 65584, 65592
     := 65584, 65600 := 65600, 65608 := 65600, 65616 := 65616, 65624 := 65616, 65632 :=
     65632, 65640 := 65632, 65664 := 65664, 65672 := 65664, 65680 := 65680, 65688 := 65680,
     65696 := 0, 65704 := 17, 65712 := 17, 69816 := 1, 65752 := 273, 66016 := 273, 66024 :=
     3792, 69808 := 3792, 66040 := 65648, 66032 := 65648, 65656 := 66032, 65648 := 66032,
     65760 := 65648, 65768 := 65648, 65720 := 32, 65744 := 32, 65736 := 65536, 65728 :=
     65536, 65544 := 65728, 65536 := 65728), heap_listp = 65712, seg_first = 65536, mem_brk
     = 69824, mem_max_addr = 21037056\<rparr>, 65760)"
  unfolding malloc_state_def malloc_16_eval
  by (simp add: alloc_defs copy_words_numeral cong: eval_congs)

lemma malloc_100_eval:
  "mm_malloc heap_init 100 = Some (\<lparr>mem = (\<lambda>_. 0) (65536 := 65536, 65544 :=
     65536, 65552 := 65552, 65560 := 65552, 65568 := 65568, 65576 := 65568, 65584 := 65584,
     65592 := 65584, 65600 := 65600, 65608 := 65600, 65616 := 65616, 65624 := 65616, 65632
     := 65632, 65640 := 65632, 65664 := 65664, 65672 := 65664, 65680 := 65680, 65688 :=
     65680, 65696 := 0, 65704 := 17, 65712 := 17, 69816 := 1, 65736 := 65648, 65728 :=
     65648, 65720 := 145, 65856 := 145, 65864 := 3952, 69808 := 3952, 65880 := 65648, 65872
     := 65648, 65656 := 65872, 65648 := 65872), heap_listp = 65712, seg_first = 65536,
     mem_brk = 69824, mem_max_addr = 21037056\<rparr>, 65728)"
  unfolding heap_init_eval
  by (simp add: alloc_defs cong: eval_congs)

text \<open>
  The rounding on two requests, and the request of 100 bytes on the arena: it is rounded
  to 128, the block found is the one at \<open>0x100C0\<close>, and its header is written with the size
  144 and the allocated bit.
\<close>

theorem malloc_small_request_rounding_witness:
  "(1 :: word64) \<le> 100 \<and> (100 :: word64) \<le> 16 * DSIZE
   \<and> next_power_of_2 100 = 128 \<and> malloc_asize 100 = 144
   \<and> (1 :: word64) \<le> 9 \<and> (9 :: word64) \<le> 16 * DSIZE
   \<and> next_power_of_2 9 = 16 \<and> malloc_asize 9 = 2 * DSIZE
   \<and> mm_malloc heap_init 100 =
       (case find_fit heap_init 144 of
          None \<Rightarrow> None
        | Some bp \<Rightarrow>
            if bp \<noteq> NULL then Some (place heap_init bp 144, bp)
            else
              (let extendsize = MAX_of 144 CHUNKSIZE;
                   (s1, bp1) = extend_heap heap_init (extendsize div WSIZE)
               in if bp1 = NULL then Some (s1, NULL)
                  else Some (place s1 bp1 144, bp1)))
   \<and> malloc_ptr heap_init 100 = 0x100C0
   \<and> GET (malloc_state heap_init 100) (HDRP 0x100C0) = PACK 144 1"
proof -
  have h1: "(1 :: word64) \<le> 100" by simp
  have h2: "(100 :: word64) \<le> 16 * DSIZE" by (simp add: DSIZE_def WSIZE_def)
  have h3: "(1 :: word64) \<le> 9" by simp
  have h4: "(9 :: word64) \<le> 16 * DSIZE" by (simp add: DSIZE_def WSIZE_def)
  have e1: "next_power_of_2 100 = 128" by (simp add: next_power_of_2_def)
  have e2: "next_power_of_2 9 = 16" by (simp add: next_power_of_2_def)
  have b: "block_asize 128 = 144"
    by (simp add: block_asize_def DSIZE_def WSIZE_def ALIGN_SIZE_def)
  note t100 = malloc_small_request_rounding[OF h1 h2]
  have "malloc_asize 100 = block_asize (next_power_of_2 100)"
    using t100 by blast
  then have a1: "malloc_asize 100 = 144" by (simp add: e1 b)
  have "next_power_of_2 9 \<le> DSIZE \<longrightarrow> malloc_asize 9 = 2 * DSIZE"
    using malloc_small_request_rounding[OF h3 h4] by blast
  then have a2: "malloc_asize 9 = 2 * DSIZE"
    by (simp add: e2 DSIZE_def WSIZE_def)
  have m0: "\<forall>s. mm_malloc s 100 =
            (let asize = block_asize (next_power_of_2 100)
             in case find_fit s asize of
                  None \<Rightarrow> None
                | Some bp \<Rightarrow>
                    if bp \<noteq> NULL then Some (place s bp asize, bp)
                    else
                      (let extendsize = MAX_of asize CHUNKSIZE;
                           (s1, bp1) = extend_heap s (extendsize div WSIZE)
                       in if bp1 = NULL then Some (s1, NULL)
                          else Some (place s1 bp1 asize, bp1)))"
    using t100 by (elim conjE)
  have m1: "mm_malloc heap_init 100 =
       (case find_fit heap_init 144 of
          None \<Rightarrow> None
        | Some bp \<Rightarrow>
            if bp \<noteq> NULL then Some (place heap_init bp 144, bp)
            else
              (let extendsize = MAX_of 144 CHUNKSIZE;
                   (s1, bp1) = extend_heap heap_init (extendsize div WSIZE)
               in if bp1 = NULL then Some (s1, NULL)
                  else Some (place s1 bp1 144, bp1)))"
    using m0 [THEN spec, of heap_init] unfolding e1 b Let_def [of "144 :: word64"] .
  have p1: "malloc_ptr heap_init 100 = 0x100C0"
    unfolding malloc_ptr_def malloc_100_eval by simp
  have p2: "GET (malloc_state heap_init 100) (HDRP 0x100C0) = PACK 144 1"
    unfolding malloc_state_def malloc_100_eval
    by (simp add: GET_def HDRP_def PACK_def WSIZE_def)
  show ?thesis
    apply (intro conjI)
    apply (rule h1 h2 h3 h4 e1 e2 a1 a2 m1 p1 p2)+
    done
qed

lemma malloc_16_16_eval:
  "mm_malloc (malloc_state heap_init 16) 16 = Some (\<lparr>mem = (\<lambda>_. 0) (65536 :=
     65536, 65544 := 65536, 65552 := 65552, 65560 := 65552, 65568 := 65568, 65576 := 65568,
     65584 := 65584, 65592 := 65584, 65600 := 65600, 65608 := 65600, 65616 := 65616, 65624
     := 65616, 65632 := 65632, 65640 := 65632, 65664 := 65664, 65672 := 65664, 65680 :=
     65680, 65688 := 65680, 65696 := 0, 65704 := 17, 65712 := 17, 69816 := 1, 65736 :=
     65648, 65728 := 65648, 65720 := 33, 65744 := 33, 65768 := 65648, 65760 := 65648, 65752
     := 33, 65776 := 33, 65784 := 4032, 69808 := 4032, 65800 := 65648, 65792 := 65648, 65656
     := 65792, 65648 := 65792), heap_listp = 65712, seg_first = 65536, mem_brk = 69824,
     mem_max_addr = 21037056\<rparr>, 65760)"
  unfolding malloc_state_def malloc_16_eval
  by (simp add: alloc_defs cong: eval_congs)

lemma malloc_16_16_16_eval:
  "mm_malloc (malloc_state (malloc_state heap_init 16) 16) 16 = Some (\<lparr>mem =
     (\<lambda>_. 0) (65536 := 65536, 65544 := 65536, 65552 := 65552, 65560 := 65552, 65568
     := 65568, 65576 := 65568, 65584 := 65584, 65592 := 65584, 65600 := 65600, 65608 :=
     65600, 65616 := 65616, 65624 := 65616, 65632 := 65632, 65640 := 65632, 65664 := 65664,
     65672 := 65664, 65680 := 65680, 65688 := 65680, 65696 := 0, 65704 := 17, 65712 := 17,
     69816 := 1, 65736 := 65648, 65728 := 65648, 65720 := 33, 65744 := 33, 65768 := 65648,
     65760 := 65648, 65752 := 33, 65776 := 33, 65800 := 65648, 65792 := 65648, 65784 := 33,
     65808 := 33, 65816 := 4000, 69808 := 4000, 65832 := 65648, 65824 := 65648, 65656 :=
     65824, 65648 := 65824), heap_listp = 65712, seg_first = 65536, mem_brk = 69824,
     mem_max_addr = 21037056\<rparr>, 65792)"
  unfolding malloc_state_def[of "malloc_state heap_init 16"] malloc_16_16_eval
  by (simp add: alloc_defs cong: eval_congs)

lemma free_first_eval:
  "mm_free (malloc_state (malloc_state (malloc_state heap_init 16) 16) 16) 65728 =
     \<lparr>mem = (\<lambda>_. 0) (65552 := 65552, 65560 := 65552, 65568 := 65568, 65576 :=
     65568, 65584 := 65584, 65592 := 65584, 65600 := 65600, 65608 := 65600, 65616 := 65616,
     65624 := 65616, 65632 := 65632, 65640 := 65632, 65664 := 65664, 65672 := 65664, 65680
     := 65680, 65688 := 65680, 65696 := 0, 65704 := 17, 65712 := 17, 69816 := 1, 65768 :=
     65648, 65760 := 65648, 65752 := 33, 65776 := 33, 65800 := 65648, 65792 := 65648, 65784
     := 33, 65808 := 33, 65816 := 4000, 69808 := 4000, 65832 := 65648, 65824 := 65648, 65656
     := 65824, 65648 := 65824, 65720 := 32, 65744 := 32, 65736 := 65536, 65728 := 65536,
     65544 := 65728, 65536 := 65728), heap_listp = 65712, seg_first = 65536, mem_brk =
     69824, mem_max_addr = 21037056\<rparr>"
  unfolding malloc_state_def[of "malloc_state (malloc_state heap_init 16) 16"] malloc_16_16_16_eval
  by (simp add: alloc_defs cong: eval_congs)

lemma heap_two_freed_eval:
  "heap_two_freed = \<lparr>mem = (\<lambda>_. 0) (65552 := 65552, 65560 := 65552, 65568 :=
     65568, 65576 := 65568, 65584 := 65584, 65592 := 65584, 65600 := 65600, 65608 := 65600,
     65616 := 65616, 65624 := 65616, 65632 := 65632, 65640 := 65632, 65664 := 65664, 65672
     := 65664, 65680 := 65680, 65688 := 65680, 65696 := 0, 65704 := 17, 65712 := 17, 69816
     := 1, 65768 := 65648, 65760 := 65648, 65752 := 33, 65776 := 33, 65816 := 4000, 65832 :=
     65648, 65824 := 65648, 65720 := 32, 65744 := 32, 65736 := 65536, 65728 := 65536, 65544
     := 65728, 65536 := 65728, 65808 := 32, 65784 := 4032, 69808 := 4032, 65800 := 65648,
     65792 := 65648, 65656 := 65792, 65648 := 65792), heap_listp = 65712, seg_first = 65536,
     mem_brk = 69824, mem_max_addr = 21037056\<rparr>"
  unfolding heap_two_freed_def free_first_eval
  by (simp add: alloc_defs cong: eval_congs)

lemma heap_at_coalesce_eval:
  "heap_at_coalesce = \<lparr>mem = (\<lambda>_. 0) (65552 := 65552, 65560 := 65552, 65568
     := 65568, 65576 := 65568, 65584 := 65584, 65592 := 65584, 65600 := 65600, 65608 :=
     65600, 65616 := 65616, 65624 := 65616, 65632 := 65632, 65640 := 65632, 65664 := 65664,
     65672 := 65664, 65680 := 65680, 65688 := 65680, 65696 := 0, 65704 := 17, 65712 := 17,
     69816 := 1, 65768 := 65648, 65760 := 65648, 65816 := 4000, 65832 := 65648, 65824 :=
     65648, 65720 := 32, 65744 := 32, 65736 := 65536, 65728 := 65536, 65544 := 65728, 65536
     := 65728, 65808 := 32, 65784 := 4032, 69808 := 4032, 65800 := 65648, 65792 := 65648,
     65656 := 65792, 65648 := 65792, 65752 := 32, 65776 := 32), heap_listp = 65712,
     seg_first = 65536, mem_brk = 69824, mem_max_addr = 21037056\<rparr>"
  unfolding heap_at_coalesce_def heap_two_freed_eval
  by (simp add: alloc_defs cong: eval_congs)

lemma coalesce_both_eval:
  "coalesce heap_at_coalesce 65760 = (\<lparr>mem = (\<lambda>_. 0) (65552 := 65552, 65560
     := 65552, 65568 := 65568, 65576 := 65568, 65584 := 65584, 65592 := 65584, 65600 :=
     65600, 65608 := 65600, 65616 := 65616, 65624 := 65616, 65632 := 65632, 65640 := 65632,
     65664 := 65664, 65672 := 65664, 65680 := 65680, 65688 := 65680, 65696 := 0, 65704 :=
     17, 65712 := 17, 69816 := 1, 65768 := 65648, 65760 := 65648, 65816 := 4000, 65832 :=
     65648, 65824 := 65648, 65744 := 32, 65808 := 32, 65784 := 4032, 65800 := 65648, 65792
     := 65648, 65752 := 32, 65776 := 32, 65536 := 65536, 65544 := 65536, 65720 := 4096,
     69808 := 4096, 65736 := 65648, 65728 := 65648, 65656 := 65728, 65648 := 65728),
     heap_listp = 65712, seg_first = 65536, mem_brk = 69824, mem_max_addr =
     21037056\<rparr>, 65728)"
  unfolding heap_at_coalesce_eval
  by (simp add: alloc_defs cong: eval_congs)

lemma malloc_max_eval:
  "mm_malloc heap_init 18446744073709551615 = Some (\<lparr>mem = (\<lambda>_. 0) (65536 :=
     65536, 65544 := 65536, 65552 := 65552, 65560 := 65552, 65568 := 65568, 65576 := 65568,
     65584 := 65584, 65592 := 65584, 65600 := 65600, 65608 := 65600, 65616 := 65616, 65624
     := 65616, 65632 := 65632, 65640 := 65632, 65664 := 65664, 65672 := 65664, 65680 :=
     65680, 65688 := 65680, 65696 := 0, 65704 := 17, 65712 := 17, 69816 := 1, 65720 := 17,
     65728 := 17, 65736 := 4080, 69808 := 4080, 65752 := 65648, 65744 := 65648, 65656 :=
     65744, 65648 := 65744), heap_listp = 65712, seg_first = 65536, mem_brk = 69824,
     mem_max_addr = 21037056\<rparr>, 65728)"
  unfolding heap_init_eval
  by (simp add: alloc_defs cong: eval_congs)

lemma malloc_max_16_eval:
  "mm_malloc (malloc_state heap_init 18446744073709551615) 16 = Some (\<lparr>mem =
     (\<lambda>_. 0) (65536 := 65536, 65544 := 65536, 65552 := 65552, 65560 := 65552, 65568
     := 65568, 65576 := 65568, 65584 := 65584, 65592 := 65584, 65600 := 65600, 65608 :=
     65600, 65616 := 65616, 65624 := 65616, 65632 := 65632, 65640 := 65632, 65664 := 65664,
     65672 := 65664, 65680 := 65680, 65688 := 65680, 65696 := 0, 65704 := 17, 65712 := 17,
     69816 := 1, 65720 := 17, 65728 := 17, 65752 := 65648, 65744 := 65648, 65736 := 33,
     65760 := 33, 65768 := 4048, 69808 := 4048, 65784 := 65648, 65776 := 65648, 65656 :=
     65776, 65648 := 65776), heap_listp = 65712, seg_first = 65536, mem_brk = 69824,
     mem_max_addr = 21037056\<rparr>, 65744)"
  unfolding malloc_state_def malloc_max_eval
  by (simp add: alloc_defs cong: eval_congs)

lemma heap_overflowed_eval:
  "heap_overflowed = \<lparr>mem = (\<lambda>_. 0) (65552 := 65552, 65560 := 65552, 65568 :=
     65568, 65576 := 65568, 65584 := 65584, 65592 := 65584, 65600 := 65600, 65608 := 65600,
     65616 := 65616, 65624 := 65616, 65632 := 65632, 65640 := 65632, 65664 := 65664, 65672
     := 65664, 65680 := 65680, 65688 := 65680, 65696 := 0, 65704 := 17, 65712 := 17, 69816
     := 1, 65752 := 65648, 65744 := 65648, 65760 := 33, 65768 := 4048, 69808 := 4048, 65784
     := 65648, 65776 := 65648, 65656 := 65776, 65648 := 65776, 65720 := 16, 65736 := 65536,
     65728 := 65536, 65544 := 65728, 65536 := 65728), heap_listp = 65712, seg_first = 65536,
     mem_brk = 69824, mem_max_addr = 21037056\<rparr>"
  unfolding heap_overflowed_def malloc_state_def[of "malloc_state heap_init 0xFFFFFFFFFFFFFFFF"] malloc_max_16_eval
  by (simp add: alloc_defs cong: eval_congs)

lemma heap_full_init_eval:
  "mm_init heap_full = (\<lparr>mem = (\<lambda>_. 0) (65536 := 65536, 65544 := 65536, 65552
     := 65552, 65560 := 65552, 65568 := 65568, 65576 := 65568, 65584 := 65584, 65592 :=
     65584, 65600 := 65600, 65608 := 65600, 65616 := 65616, 65624 := 65616, 65632 := 65632,
     65640 := 65632, 65664 := 65664, 65672 := 65664, 65680 := 65680, 65688 := 65680, 65696
     := 0, 65704 := 17, 65712 := 17, 65720 := 4096, 69808 := 4096, 69816 := 1, 65736 :=
     65648, 65728 := 65648, 65656 := 65728, 65648 := 65728), heap_listp = 65712, seg_first =
     65536, mem_brk = 69824, mem_max_addr = 69824\<rparr>, 0)"
  unfolding heap_full_def
  by (simp add: alloc_defs heap0_def cong: eval_congs)

lemma heap_exhausted_eval:
  "heap_exhausted = \<lparr>mem = (\<lambda>_. 0) (65536 := 65536, 65544 := 65536, 65552 :=
     65552, 65560 := 65552, 65568 := 65568, 65576 := 65568, 65584 := 65584, 65592 := 65584,
     65600 := 65600, 65608 := 65600, 65616 := 65616, 65624 := 65616, 65632 := 65632, 65640
     := 65632, 65664 := 65664, 65672 := 65664, 65680 := 65680, 65688 := 65680, 65696 := 0,
     65704 := 17, 65712 := 17, 69816 := 1, 65736 := 65648, 65728 := 65648, 65720 := 33,
     65744 := 33, 65752 := 4064, 69808 := 4064, 65768 := 65648, 65760 := 65648, 65656 :=
     65760, 65648 := 65760), heap_listp = 65712, seg_first = 65536, mem_brk = 69824,
     mem_max_addr = 69824\<rparr>"
  unfolding heap_exhausted_def malloc_state_def heap_full_init_eval
  by (simp add: alloc_defs cong: eval_congs)

lemma list_nodes_numeral:
  "list_nodes (numeral k) s sentinel bp =
    (if bp = NULL \<or> bp = sentinel then Some []
     else map_option (Cons bp) (list_nodes (pred_numeral k) s sentinel (next_list s bp)))"
  by (simp add: numeral_eq_Suc)

lemma heap_blocks_numeral:
  "heap_blocks (numeral k) s bp =
    (if GET_SIZE s (HDRP bp) > 0 then
       map_option (Cons (bp, GET_SIZE s (HDRP bp), GET_ALLOC s (HDRP bp) \<noteq> 0))
         (heap_blocks (pred_numeral k) s (NEXT_BLKP s bp))
     else Some [])"
  by (simp add: numeral_eq_Suc)

section \<open>mm\_realloc\<close>

lemma nine_times_nonzero:
  fixes sz :: word64
  assumes "sz \<noteq> 0"
  shows "10 * sz \<noteq> sz"
proof
  assume "10 * sz = sz"
  then have nine: "9 * sz = 0" by (simp add: algebra_simps)
  have inv: "(0x8E38E38E38E38E39 :: word64) * 9 = 1" by simp
  have "sz = (0x8E38E38E38E38E39 * 9) * sz" by (simp only: inv mult_1)
  also have "\<dots> = 0x8E38E38E38E38E39 * (9 * sz)" by (simp only: mult.assoc)
  also have "\<dots> = 0" by (simp only: nine mult_zero_right)
  finally show False using assms by simp
qed


text \<open>
  Claim C1. Whenever \<open>mm_realloc ptr sz\<close>, with \<open>ptr\<close> not \<open>NULL\<close> and \<open>sz\<close> not 0, takes
  the reallocation path (the adjusted size is not below the size of the block), the
  request it passes to \<open>mm_malloc\<close> is \<open>SEGSIZE * sz\<close>, ten times the size asked for, and
  never the size asked for itself. The product is taken in \<open>size_t\<close>; it is ten times
  \<open>sz\<close> as a number whenever that fits in 64 bits.
\<close>

theorem realloc_requests_segsize_times_size:
  assumes "sz \<noteq> 0" and "ptr \<noteq> NULL"
    and "\<not> block_asize sz < GET_SIZE s (HDRP ptr)"
  shows "mm_realloc s ptr sz =
      (case mm_malloc s (word_of_int SEGSIZE * sz) of
         None \<Rightarrow> None
       | Some (s1, newptr) \<Rightarrow>
           if newptr = NULL then Some (s1, NULL)
           else Some (mm_free (memcpy s1 newptr ptr
                  (if sz < GET_SIZE s (HDRP ptr) - DSIZE then sz
                   else GET_SIZE s (HDRP ptr) - DSIZE)) ptr, newptr))
    \<and> word_of_int SEGSIZE * sz = 10 * sz
    \<and> word_of_int SEGSIZE * sz \<noteq> sz
    \<and> (10 * unat sz < 2 ^ 64 \<longrightarrow> unat (word_of_int SEGSIZE * sz) = 10 * unat sz)"
proof -
  have seg: "word_of_int SEGSIZE * sz = 10 * sz" by (simp add: SEGSIZE_def)
  have ne: "10 * sz \<noteq> sz" using nine_times_nonzero[OF assms(1)] .
  have nat: "10 * unat sz < 2 ^ 64 \<longrightarrow> unat (10 * sz) = 10 * unat sz"
    by (simp add: unat_word_ariths)
  have r: "mm_realloc s ptr sz =
      (case mm_malloc s (word_of_int SEGSIZE * sz) of
         None \<Rightarrow> None
       | Some (s1, newptr) \<Rightarrow>
           if newptr = NULL then Some (s1, NULL)
           else Some (mm_free (memcpy s1 newptr ptr
                  (if sz < GET_SIZE s (HDRP ptr) - DSIZE then sz
                   else GET_SIZE s (HDRP ptr) - DSIZE)) ptr, newptr))"
    using assms
    by (cases "mm_malloc s (word_of_int SEGSIZE * sz)") (auto simp: mm_realloc_def Let_def)
  show ?thesis using seg ne nat r by simp
qed


theorem realloc_requests_segsize_times_size_witness:
  "(16 :: word64) \<noteq> 0 \<and> (0x100C0 :: addr) \<noteq> NULL
   \<and> \<not> block_asize 16 < GET_SIZE (malloc_state heap_init 16) (HDRP 0x100C0)
   \<and> mm_realloc (malloc_state heap_init 16) 0x100C0 16 =
      (case mm_malloc (malloc_state heap_init 16) (word_of_int SEGSIZE * 16) of
         None \<Rightarrow> None
       | Some (s1, newptr) \<Rightarrow>
           if newptr = NULL then Some (s1, NULL)
           else Some (mm_free (memcpy s1 newptr 0x100C0
                  (if 16 < GET_SIZE (malloc_state heap_init 16) (HDRP 0x100C0) - DSIZE then 16
                   else GET_SIZE (malloc_state heap_init 16) (HDRP 0x100C0) - DSIZE))
                  0x100C0, newptr))
   \<and> word_of_int SEGSIZE * (16 :: word64) = 160
   \<and> map_option snd (mm_realloc (malloc_state heap_init 16) 0x100C0 16) = Some 0x100E0
   \<and> map_option (\<lambda>r. GET_SIZE (fst r) (HDRP (snd r)))
         (mm_realloc (malloc_state heap_init 16) 0x100C0 16) = Some 272"
proof -
  have h1: "(16 :: word64) \<noteq> 0" by simp
  have h2: "(0x100C0 :: addr) \<noteq> NULL" by (simp add: NULL_def)
  have h3: "\<not> block_asize 16 < GET_SIZE (malloc_state heap_init 16) (HDRP 0x100C0)"
    unfolding malloc_state_def malloc_16_eval by (simp add: alloc_defs)
  note t = realloc_requests_segsize_times_size[OF h1 h2 h3]
  have c1: "mm_realloc (malloc_state heap_init 16) 0x100C0 16 =
      (case mm_malloc (malloc_state heap_init 16) (word_of_int SEGSIZE * 16) of
         None \<Rightarrow> None
       | Some (s1, newptr) \<Rightarrow>
           if newptr = NULL then Some (s1, NULL)
           else Some (mm_free (memcpy s1 newptr 0x100C0
                  (if 16 < GET_SIZE (malloc_state heap_init 16) (HDRP 0x100C0) - DSIZE then 16
                   else GET_SIZE (malloc_state heap_init 16) (HDRP 0x100C0) - DSIZE))
                  0x100C0, newptr))"
    using t by (rule conjunct1)
  have c2: "word_of_int SEGSIZE * (16 :: word64) = 160" by (simp add: SEGSIZE_def)
  have c3: "map_option snd (mm_realloc (malloc_state heap_init 16) 0x100C0 16) = Some 0x100E0"
    by (simp add: realloc_16_eval)
  have c4: "map_option (\<lambda>r. GET_SIZE (fst r) (HDRP (snd r)))
         (mm_realloc (malloc_state heap_init 16) 0x100C0 16) = Some 272"
    unfolding realloc_16_eval by (simp add: alloc_defs)
  show ?thesis by (intro conjI) (rule h1 h2 h3 c1 c2 c3 c4)+
qed

text \<open>
  Claim C2, as stated, is false where the adjusted size equals the size of the block:
  the test of line 243 is strict. A block of 32 bytes (got with \<open>mm_malloc 16\<close>) resized
  to 16 bytes, whose adjusted size is 32 again, is not returned in place; a new block is
  allocated and the old one freed.
\<close>

theorem realloc_equal_size_counterexample:
  "block_asize 16 \<le> GET_SIZE (malloc_state heap_init 16) (HDRP 0x100C0)
   \<and> malloc_ptr heap_init 16 = 0x100C0
   \<and> GET_ALLOC (malloc_state heap_init 16) (HDRP 0x100C0) \<noteq> 0
   \<and> mm_realloc (malloc_state heap_init 16) 0x100C0 16
        \<noteq> Some (malloc_state heap_init 16, 0x100C0)
   \<and> map_option snd (mm_realloc (malloc_state heap_init 16) 0x100C0 16) = Some 0x100E0"
proof -
  have c1: "block_asize 16 \<le> GET_SIZE (malloc_state heap_init 16) (HDRP 0x100C0)"
    unfolding malloc_state_def malloc_16_eval by (simp add: alloc_defs)
  have c2: "malloc_ptr heap_init 16 = 0x100C0"
    unfolding malloc_ptr_def malloc_16_eval by simp
  have c3: "GET_ALLOC (malloc_state heap_init 16) (HDRP 0x100C0) \<noteq> 0"
    unfolding malloc_state_def malloc_16_eval by (simp add: alloc_defs)
  have c4: "mm_realloc (malloc_state heap_init 16) 0x100C0 16
        \<noteq> Some (malloc_state heap_init 16, 0x100C0)"
    by (simp add: realloc_16_eval)
  have c5: "map_option snd (mm_realloc (malloc_state heap_init 16) 0x100C0 16) = Some 0x100E0"
    by (simp add: realloc_16_eval)
  show ?thesis by (intro conjI) (rule c1 c2 c3 c4 c5)+
qed

text \<open>
  Claim C2, amended. For \<open>ptr\<close> not \<open>NULL\<close> and \<open>sz\<close> not 0, if the new total block size (the
  adjusted size of \<open>sz\<close>) is strictly less than the size in the header of the block, then
  \<open>mm_realloc\<close> returns \<open>ptr\<close> and leaves the whole state as it was: no allocation, no
  copy, no free.
\<close>

theorem realloc_in_place:
  assumes "sz \<noteq> 0" and "ptr \<noteq> NULL"
    and "block_asize sz < GET_SIZE s (HDRP ptr)"
  shows "mm_realloc s ptr sz = Some (s, ptr)"
  using assms by (simp add: mm_realloc_def Let_def)


theorem realloc_in_place_witness:
  "(50 :: word64) \<noteq> 0 \<and> (0x100C0 :: addr) \<noteq> NULL
   \<and> block_asize 50 < GET_SIZE (malloc_state heap_init 100) (HDRP 0x100C0)
   \<and> mm_realloc (malloc_state heap_init 100) 0x100C0 50
        = Some (malloc_state heap_init 100, 0x100C0)"
proof -
  have h1: "(50 :: word64) \<noteq> 0" by simp
  have h2: "(0x100C0 :: addr) \<noteq> NULL" by (simp add: NULL_def)
  have h3: "block_asize 50 < GET_SIZE (malloc_state heap_init 100) (HDRP 0x100C0)"
    unfolding malloc_state_def malloc_100_eval by (simp add: alloc_defs)
  show ?thesis using realloc_in_place[OF h1 h2 h3] h1 h2 h3 by blast
qed

lemma mm_malloc_out_of_memory:
  assumes "malloc_out_of_memory s n"
  shows "mm_malloc s n = Some (s, NULL)"
proof (cases "n = 0")
  case True
  then show ?thesis by (simp add: mm_malloc_def)
next
  case False
  let ?words = "MAX_of (malloc_asize n) CHUNKSIZE div WSIZE"
  let ?sz = "if ?words mod 2 \<noteq> 0 then (?words + 1) * WSIZE else ?words * WSIZE"
  from assms False have ff: "find_fit s (malloc_asize n) = Some NULL"
    and st: "mem_sbrk s ?sz = (s, - 1)"
    by (simp_all add: malloc_out_of_memory_def Let_def)
  have "extend_heap s ?words = (s, NULL)"
    unfolding extend_heap_def Let_def using st by simp
  then show ?thesis using False ff by (simp add: mm_malloc_def Let_def)
qed

lemma mem_brk_PUT: "mem_brk (PUT s a v) = mem_brk s"
  by (simp add: PUT_def)

lemma mem_brk_list_insert: "mem_brk (list_insert s bp sz) = mem_brk s"
  by (simp add: list_insert_def Let_def set_next_list_def set_prev_list_def)

lemma mem_brk_list_remove: "mem_brk (list_remove s bp) = mem_brk s"
  by (simp add: list_remove_def Let_def set_next_list_def set_prev_list_def)

lemma mem_brk_coalesce: "mem_brk (fst (coalesce s bp)) = mem_brk s"
  by (simp add: coalesce_def Let_def mem_brk_PUT mem_brk_list_insert mem_brk_list_remove)

lemma extend_heap_cases:
  "extend_heap s words = (s1, p) \<Longrightarrow>
     (let sz = (if words mod 2 \<noteq> 0 then (words + 1) * WSIZE else words * WSIZE)
      in (mem_sbrk s sz = (s, - 1) \<and> s1 = s \<and> p = NULL)
         \<or> (mem_brk s1 = mem_brk s + sz \<and>
             \<not> unat (mem_brk s) + unat sz > unat (mem_max_addr s)))"
proof -
  assume a: "extend_heap s words = (s1, p)"
  let ?sz = "if words mod 2 \<noteq> 0 then (words + 1) * WSIZE else words * WSIZE"
  show ?thesis
  proof (cases "unat (mem_brk s) + unat ?sz > unat (mem_max_addr s)")
    case True
    then have sb: "mem_sbrk s ?sz = (s, - 1)" by (simp add: mem_sbrk_def)
    then have "extend_heap s words = (s, NULL)" by (simp add: extend_heap_def Let_def)
    then show ?thesis using a sb by (simp add: Let_def)
  next
    case False
    then have sb: "mem_sbrk s ?sz = (s\<lparr>mem_brk := mem_brk s + ?sz\<rparr>, mem_brk s)"
      by (simp add: mem_sbrk_def)
    show ?thesis
    proof (cases "mem_brk s = - 1")
      case True
      then have "extend_heap s words = (s\<lparr>mem_brk := mem_brk s + ?sz\<rparr>, NULL)"
        using sb by (simp add: extend_heap_def Let_def)
      then have "mem_brk s1 = mem_brk s + ?sz" using a by auto
      then show ?thesis using False by (simp add: Let_def)
    next
      case nm: False
      have "extend_heap s words =
          (let s1 = s\<lparr>mem_brk := mem_brk s + ?sz\<rparr>; bp = mem_brk s;
               s2 = PUT s1 (HDRP bp) (PACK ?sz 0);
               s3 = PUT s2 (FTRP s2 bp) (PACK ?sz 0);
               s4 = PUT s3 (HDRP (NEXT_BLKP s3 bp)) (PACK 0 1)
           in coalesce s4 bp)"
        using sb nm by (simp add: extend_heap_def Let_def)
      then have "mem_brk (fst (extend_heap s words)) = mem_brk s + ?sz"
        by (simp add: Let_def mem_brk_coalesce mem_brk_PUT)
      then have "mem_brk s1 = mem_brk s + ?sz" using a by simp
      then show ?thesis using False by (simp add: Let_def)
    qed
  qed
qed

lemma extension_nonzero:
  assumes "unat x < 2 ^ 64 - 8"
  shows "(let words = MAX_of x CHUNKSIZE div WSIZE
          in if words mod 2 \<noteq> 0 then (words + 1) * WSIZE else words * WSIZE) \<noteq> 0"
proof -
  let ?m = "MAX_of x CHUNKSIZE"
  let ?w = "?m div WSIZE"
  have m1: "4096 \<le> unat ?m" by (simp add: MAX_of_def CHUNKSIZE_def word_less_nat_alt)
  have m2: "unat ?m < 2 ^ 64 - 8" using assms by (simp add: MAX_of_def CHUNKSIZE_def)
  have w: "unat ?w = unat ?m div 8" by (simp add: WSIZE_def unat_div)
  have w1: "512 \<le> unat ?w" using m1 w by simp
  have w2: "unat ?w * 8 \<le> unat ?m" using w by simp
  have e: "unat (?w * 8) = unat ?w * 8"
    using w2 m2 by (subst unat_mult_lem[THEN iffD1]) simp_all
  have "unat ?w + 1 < 2 ^ 64" using w2 m2 by simp
  then have s: "unat (?w + 1) = unat ?w + 1"
    by (subst unat_add_lem[THEN iffD1]) simp_all
  have "(unat ?w + 1) * 8 < 2 ^ 64" using w2 m2 by simp
  then have o: "unat ((?w + 1) * 8) = (unat ?w + 1) * 8"
    using s by (subst unat_mult_lem[THEN iffD1]) simp_all
  have "?w * 8 \<noteq> 0" using e w1 by (metis mult_is_0 not_numeral_le_zero unat_0 zero_neq_numeral)
  moreover have "(?w + 1) * 8 \<noteq> 0" using o by (metis add_is_0 mult_is_0 one_neq_zero unat_0 zero_neq_numeral)
  ultimately show ?thesis by (simp add: Let_def WSIZE_def)
qed


lemma malloc_asize_bound:
  assumes "n \<noteq> 0" and "unat n \<le> 2 ^ 64 - 32"
  shows "unat (malloc_asize n) < 2 ^ 64 - 8"
proof (cases "n \<le> 256")
  case True
  have "1 \<le> n" using assms(1) by (simp add: word_le_nat_alt unat_gt_0 Suc_le_eq)
  then have r: "next_power_of_2 n = word_of_nat (pow2_ceiling (unat n))"
    using next_power_of_2_small True by blast
  let ?p = "pow2_ceiling (unat n)"
  have pc: "?p \<in> {1, 2, 4, 8, 16, 32, 64, 128, 256}" by (rule pow2_ceiling_cases)
  have "malloc_asize n = block_asize (word_of_nat ?p)"
    using True r by (simp add: malloc_asize_def DSIZE_def WSIZE_def)
  also have "\<dots> = (if ?p \<le> 16 then 32 else word_of_nat ?p + 16)"
    using block_asize_pow2(1)[OF pc] .
  finally have "unat (malloc_asize n) \<le> 272" using pc by auto
  then show ?thesis by simp
next
  case False
  then have big: "256 < unat n" by (simp add: word_le_nat_alt)
  then have nd: "\<not> n \<le> DSIZE" by (simp add: word_le_nat_alt DSIZE_def WSIZE_def)
  have a: "malloc_asize n = 8 * ((n + 23) div 8)"
    using False nd
    by (simp add: malloc_asize_def block_asize_def DSIZE_def WSIZE_def ALIGN_SIZE_def add.commute)
  have "unat n + 23 < 2 ^ 64" using assms(2) by simp
  then have u: "unat (n + 23) = unat n + 23"
    by (subst unat_add_lem[THEN iffD1]) simp_all
  have d: "unat ((n + 23) div 8) = (unat n + 23) div 8" by (simp add: unat_div u)
  have le: "8 * ((unat n + 23) div 8) \<le> unat n + 23" by simp
  then have "unat (8 * ((n + 23) div 8)) = 8 * ((unat n + 23) div 8)"
    using d assms(2) by (subst unat_mult_lem[THEN iffD1]) simp_all
  then show ?thesis using a le assms(2) by simp
qed

lemma mm_malloc_null_unchanged:
  assumes r: "mm_malloc s n = Some (s1, NULL)"
    and brk: "mem_brk s1 = mem_brk s"
    and sm: "unat n \<le> 2 ^ 64 - 32"
  shows "s1 = s"
proof (cases "n = 0")
  case True
  then show ?thesis using r by (simp add: mm_malloc_def)
next
  case False
  let ?a = "malloc_asize n"
  let ?w = "MAX_of ?a CHUNKSIZE div WSIZE"
  let ?sz = "if ?w mod 2 \<noteq> 0 then (?w + 1) * WSIZE else ?w * WSIZE"
  obtain s' p where e: "extend_heap s ?w = (s', p)" by (cases "extend_heap s ?w")
  from r False have ff: "find_fit s ?a = Some NULL"
    by (auto simp: mm_malloc_def Let_def split: option.splits if_splits prod.splits)
  from r False ff e have "s' = s1 \<and> p = NULL"
    by (auto simp: mm_malloc_def Let_def split: if_splits)
  then have e1: "extend_heap s ?w = (s1, NULL)" using e by simp
  define isz where "isz = ?sz"
  have nz: "isz \<noteq> 0"
    using extension_nonzero[OF malloc_asize_bound[OF False sm]]
    unfolding isz_def Let_def .
  have "s1 = s \<or> mem_brk s1 = mem_brk s + isz"
    using extend_heap_cases[OF e1] unfolding isz_def Let_def by blast
  then show ?thesis using brk nz by auto
qed

text \<open>
  Claim C8. On the reallocation path of \<open>mm_realloc ptr sz\<close> (\<open>ptr\<close> not \<open>NULL\<close>, \<open>sz\<close> not 0):
  whenever the fresh allocation returns \<open>NULL\<close>, \<open>mm_realloc\<close> returns \<open>NULL\<close> and the state
  is the one \<open>mm_malloc\<close> left, so nothing is copied and \<open>ptr\<close> is not freed; that state is
  the state before the call, with every word of the block as it was, whenever the
  failed allocation did not move the break of the heap (for a request of at most
  \<open>2 ^ 64 - 32\<close> bytes), and in particular whenever the allocation fails for lack of
  memory (no free block fits and the heap cannot grow) or because the request is 0.
\<close>

theorem realloc_failure_leaves_block:
  assumes "sz \<noteq> 0" and "ptr \<noteq> NULL"
    and "\<not> block_asize sz < GET_SIZE s (HDRP ptr)"
  shows "(\<forall>s1. mm_malloc s (word_of_int SEGSIZE * sz) = Some (s1, NULL) \<longrightarrow>
            mm_realloc s ptr sz = Some (s1, NULL)
            \<and> (mem_brk s1 = mem_brk s \<and> unat (word_of_int SEGSIZE * sz :: word64) \<le> 2 ^ 64 - 32
                 \<longrightarrow> s1 = s))
       \<and> (malloc_out_of_memory s (word_of_int SEGSIZE * sz) \<longrightarrow>
            mm_malloc s (word_of_int SEGSIZE * sz) = Some (s, NULL)
            \<and> mm_realloc s ptr sz = Some (s, NULL))"
  using assms mm_malloc_out_of_memory[of s "word_of_int SEGSIZE * sz"]
    mm_malloc_null_unchanged[of s "word_of_int SEGSIZE * sz"]
  by (auto simp: mm_realloc_def Let_def)

theorem realloc_failure_leaves_block_witness:
  "(1000 :: word64) \<noteq> 0 \<and> (0x100C0 :: addr) \<noteq> NULL
   \<and> \<not> block_asize 1000 < GET_SIZE heap_exhausted (HDRP 0x100C0)
   \<and> malloc_out_of_memory heap_exhausted (word_of_int SEGSIZE * 1000)
   \<and> mm_malloc heap_exhausted (word_of_int SEGSIZE * 1000) = Some (heap_exhausted, NULL)
   \<and> unat (word_of_int SEGSIZE * 1000 :: word64) \<le> 2 ^ 64 - 32
   \<and> mm_realloc heap_exhausted 0x100C0 1000 = Some (heap_exhausted, NULL)
   \<and> GET heap_exhausted (HDRP 0x100C0) = PACK 32 1"
proof -
  have h1: "(1000 :: word64) \<noteq> 0" by simp
  have h2: "(0x100C0 :: addr) \<noteq> NULL" by (simp add: NULL_def)
  have h3: "\<not> block_asize 1000 < GET_SIZE heap_exhausted (HDRP 0x100C0)"
    unfolding heap_exhausted_eval by (simp add: alloc_defs)
  have h4: "malloc_out_of_memory heap_exhausted (word_of_int SEGSIZE * 1000)"
    unfolding heap_exhausted_eval malloc_out_of_memory_def
    by (simp add: alloc_defs cong: eval_congs)
  note t = realloc_failure_leaves_block[OF h1 h2 h3]
  have c1: "mm_malloc heap_exhausted (word_of_int SEGSIZE * 1000) = Some (heap_exhausted, NULL)"
    using t h4 by blast
  have c2: "mm_realloc heap_exhausted 0x100C0 1000 = Some (heap_exhausted, NULL)"
    using t h4 by blast
  have c3: "unat (word_of_int SEGSIZE * 1000 :: word64) \<le> 2 ^ 64 - 32"
    by (simp add: SEGSIZE_def)
  have c4: "GET heap_exhausted (HDRP 0x100C0) = PACK 32 1"
    unfolding heap_exhausted_eval by (simp add: alloc_defs)
  show ?thesis by (intro conjI) (rule h1 h2 h3 h4 c1 c2 c3 c4)+
qed

section \<open>The size-class lists\<close>

lemma dll_chain_head:
  assumes "dll_chain s sentinel sentinel ns"
  shows "prev_list s (next_list s sentinel) = sentinel \<and> next_list s sentinel \<in> set (sentinel # ns)"
  using assms by (cases ns) auto

lemma dll_chain_frame:
  assumes "\<forall>n \<in> set (sentinel # p # ns). next_list s' n = next_list s n \<and> prev_list s' n = prev_list s n"
  shows "dll_chain s' sentinel p ns = dll_chain s sentinel p ns"
  using assms by (induction ns arbitrary: p) auto

lemma insert_remove_mem:
  assumes head: "prev_list s (next_list s start) = start"
    and sep: "next_list s start + WSIZE \<noteq> start"
    and a1: "bp \<noteq> start" "bp + WSIZE \<noteq> start" "bp \<noteq> start + WSIZE"
    and a2: "bp \<noteq> next_list s start" "bp + WSIZE \<noteq> next_list s start"
            "bp \<noteq> next_list s start + WSIZE"
    and st: "start = seg_addr s (seg_index sz)"
  shows "list_remove (list_insert s bp sz) bp =
           s\<lparr>mem := (mem s)(bp + WSIZE := start, bp := next_list s start)\<rparr>"
proof -
  let ?na = "next_list s start"
  let ?m4 = "(mem s)(bp + WSIZE := start, bp := ?na, ?na + WSIZE := bp, start := bp)"
  have ins: "list_insert s bp sz = s\<lparr>mem := ?m4\<rparr>"
    using st by (simp add: list_insert_def Let_def set_next_list_def set_prev_list_def
        next_list_def)
  have W: "WSIZE \<noteq> 0" by (simp add: WSIZE_def)
  have np: "?m4 (bp + WSIZE) = start"
    using a1 a2 W by simp
  have nn: "?m4 bp = ?na"
    using a1 a2 W by simp
  have "list_remove (s\<lparr>mem := ?m4\<rparr>) bp =
      s\<lparr>mem := ?m4(start := ?na, ?na + WSIZE := start)\<rparr>"
    using np nn
    by (simp add: list_remove_def Let_def set_next_list_def set_prev_list_def
        next_list_def prev_list_def)
  moreover have "?m4(start := ?na, ?na + WSIZE := start)
       = (mem s)(bp + WSIZE := start, bp := ?na)"
  proof
    fix a
    have h1: "mem s (?na + WSIZE) = start" using head by (simp add: prev_list_def)
    have h2: "mem s start = ?na" by (simp add: next_list_def)
    show "(?m4(start := ?na, ?na + WSIZE := start)) a
        = ((mem s)(bp + WSIZE := start, bp := ?na)) a"
      using h1 h2 a1 a2 sep W by (auto simp: fun_upd_def)
  qed
  ultimately show ?thesis using ins by simp
qed

text \<open>
  Claim C10. Let the list of the size class of \<open>sz\<close> be a well-formed circular list with
  the nodes \<open>ns\<close>, and let the two words of the node \<open>bp\<close> be apart from the words of the
  sentinel and of every node of that list. Then \<open>list_insert bp sz\<close> followed by
  \<open>list_remove bp\<close> leaves every \<open>next_list\<close> and \<open>prev_list\<close> link of the sentinel and of
  the nodes as it was; the list is the same well-formed list, and memory differs from
  the memory before at most in the two words of \<open>bp\<close> itself.
\<close>

theorem insert_then_remove_restores_list:
  assumes wf: "circular_list s (seg_addr s (seg_index sz)) ns"
    and apart: "node_apart bp (seg_addr s (seg_index sz) # ns)"
  shows "(\<forall>n \<in> set (seg_addr s (seg_index sz) # ns).
            next_list (list_remove (list_insert s bp sz) bp) n = next_list s n
          \<and> prev_list (list_remove (list_insert s bp sz) bp) n = prev_list s n)
       \<and> circular_list (list_remove (list_insert s bp sz) bp) (seg_addr s (seg_index sz)) ns
       \<and> (\<forall>a. a \<noteq> bp \<and> a \<noteq> bp + WSIZE \<longrightarrow>
            mem (list_remove (list_insert s bp sz) bp) a = mem s a)"
proof -
  let ?start = "seg_addr s (seg_index sz)"
  let ?s' = "list_remove (list_insert s bp sz) bp"
  from wf have chain: "dll_chain s ?start ?start ns"
    and sepall: "\<forall>a \<in> set (?start # ns). \<forall>b \<in> set (?start # ns). a + WSIZE \<noteq> b"
    and dist: "distinct (?start # ns)"
    by (simp_all add: circular_list_def)
  from dll_chain_head[OF chain] have head: "prev_list s (next_list s ?start) = ?start"
    and hin: "next_list s ?start \<in> set (?start # ns)" by simp_all
  from apart have ap: "\<forall>n \<in> set (?start # ns). bp \<noteq> n \<and> bp + WSIZE \<noteq> n \<and> bp \<noteq> n + WSIZE"
    by (simp add: node_apart_def)
  have sep: "next_list s ?start + WSIZE \<noteq> ?start" using sepall hin by auto
  have a1: "bp \<noteq> ?start" "bp + WSIZE \<noteq> ?start" "bp \<noteq> ?start + WSIZE" using ap by auto
  have a2: "bp \<noteq> next_list s ?start" "bp + WSIZE \<noteq> next_list s ?start"
    "bp \<noteq> next_list s ?start + WSIZE" using ap hin by auto
  have eq: "?s' = s\<lparr>mem := (mem s)(bp + WSIZE := ?start, bp := next_list s ?start)\<rparr>"
    using insert_remove_mem[OF head sep a1 a2 refl] .
  have frame: "\<forall>a. a \<noteq> bp \<and> a \<noteq> bp + WSIZE \<longrightarrow> mem ?s' a = mem s a"
    by (simp add: eq)
  have links: "\<forall>n \<in> set (?start # ns). next_list ?s' n = next_list s n \<and> prev_list ?s' n = prev_list s n"
  proof
    fix n assume n: "n \<in> set (?start # ns)"
    then have "bp \<noteq> n" "bp + WSIZE \<noteq> n" "bp \<noteq> n + WSIZE" using ap by auto
    moreover have "n + WSIZE \<noteq> bp + WSIZE" using \<open>bp \<noteq> n\<close> by simp
    ultimately show "next_list ?s' n = next_list s n \<and> prev_list ?s' n = prev_list s n"
      using frame by (simp add: next_list_def prev_list_def)
  qed
  have "dll_chain ?s' ?start ?start ns = dll_chain s ?start ?start ns"
    by (rule dll_chain_frame) (use links in auto)
  then have circ: "circular_list ?s' ?start ns"
    using chain dist sepall by (simp add: circular_list_def)
  show ?thesis using links circ frame by blast
qed

theorem insert_then_remove_restores_list_witness:
  "circular_list (malloc_state heap_init 16)
      (seg_addr (malloc_state heap_init 16) (seg_index 4000)) [0x100E0]
   \<and> node_apart 0x100C0 (seg_addr (malloc_state heap_init 16) (seg_index 4000) # [0x100E0])
   \<and> seg_addr (malloc_state heap_init 16) (seg_index 4000) = 0x10070
   \<and> next_list (list_remove (list_insert (malloc_state heap_init 16) 0x100C0 4000) 0x100C0)
        0x10070 = 0x100E0
   \<and> prev_list (list_remove (list_insert (malloc_state heap_init 16) 0x100C0 4000) 0x100C0)
        0x100E0 = 0x10070
   \<and> circular_list (list_remove (list_insert (malloc_state heap_init 16) 0x100C0 4000) 0x100C0)
        (seg_addr (malloc_state heap_init 16) (seg_index 4000)) [0x100E0]"
proof -
  let ?s = "malloc_state heap_init 16"
  have se: "seg_addr ?s (seg_index 4000) = 0x10070"
    unfolding malloc_state_def malloc_16_eval by (simp add: alloc_defs)
  have h1: "circular_list ?s (seg_addr ?s (seg_index 4000)) [0x100E0]"
    unfolding se circular_list_def
    unfolding malloc_state_def malloc_16_eval by (simp add: alloc_defs)
  have h2: "node_apart 0x100C0 (seg_addr ?s (seg_index 4000) # [0x100E0])"
    unfolding se node_apart_def by (simp add: WSIZE_def)
  note t = insert_then_remove_restores_list[OF h1 h2]
  have n1: "next_list ?s 0x10070 = 0x100E0"
    unfolding malloc_state_def malloc_16_eval by (simp add: alloc_defs)
  have n2: "prev_list ?s 0x100E0 = 0x10070"
    unfolding malloc_state_def malloc_16_eval by (simp add: alloc_defs)
  have c1: "next_list (list_remove (list_insert ?s 0x100C0 4000) 0x100C0) 0x10070 = 0x100E0"
    using t n1 unfolding se by simp
  have c2: "prev_list (list_remove (list_insert ?s 0x100C0 4000) 0x100C0) 0x100E0 = 0x10070"
    using t n2 unfolding se by simp
  have c3: "circular_list (list_remove (list_insert ?s 0x100C0 4000) 0x100C0)
        (seg_addr ?s (seg_index 4000)) [0x100E0]"
    using t by blast
  show ?thesis by (intro conjI) (rule h1 h2 se c1 c2 c3)+
qed

section \<open>coalesce\<close>

lemma seven_mask: "(7 :: word64) = mask 3"
  by (simp add: mask_eq_exp_minus_1)

lemma size_bits_clear: "take_bit 3 (x AND NOT (mask 3 :: word64)) = 0"
proof (rule bit_eqI)
  fix n
  show "bit (take_bit 3 (x AND NOT (mask 3 :: word64))) n = bit (0 :: word64) n"
    by (auto simp: bit_take_bit_iff bit_and_iff bit_not_iff bit_mask_iff)
qed

lemma aligned_keep:
  assumes "take_bit 3 (x :: word64) = 0"
  shows "x AND NOT (mask 3) = x"
proof (rule bit_eqI)
  fix n
  have "\<not> bit (take_bit 3 x) n" using assms by simp
  then have "n < 3 \<Longrightarrow> \<not> bit x n" by (simp add: bit_take_bit_iff)
  then show "bit (x AND NOT (mask 3)) n = bit x n"
    by (auto simp: bit_and_iff bit_not_iff bit_mask_iff dest: bit_imp_possible_bit)
qed

lemma aligned_add:
  assumes "take_bit 3 (x :: word64) = 0" "take_bit 3 y = 0"
  shows "take_bit 3 (x + y) = 0"
proof -
  have "2 ^ 3 dvd x" "2 ^ 3 dvd y" using assms by (simp_all only: take_bit_eq_0_iff)
  then have "2 ^ 3 dvd x + y" by (rule dvd_add)
  then show ?thesis by (simp only: take_bit_eq_0_iff)
qed

lemma GET_SIZE_aligned: "take_bit 3 (GET_SIZE s p) = 0"
  using size_bits_clear[of "GET s p"] by (simp add: GET_SIZE_def ALIGN_SIZE_def seven_mask)

lemma GET_SIZE_PUT:
  "GET_SIZE (PUT s a v) b = (if b = a then v AND NOT (ALIGN_SIZE - 1) else GET_SIZE s b)"
  by (simp add: GET_SIZE_def GET_def PUT_def)

lemma GET_SIZE_PUT_other:
  "b \<noteq> a \<Longrightarrow> GET_SIZE (PUT s a v) b = GET_SIZE s b"
  by (simp add: GET_SIZE_PUT)

lemma GET_SIZE_PUT_free:
  assumes "take_bit 3 t = 0"
  shows "GET_SIZE (PUT s a (PACK t 0)) a = t"
  using aligned_keep[OF assms] by (simp add: GET_SIZE_PUT PACK_def ALIGN_SIZE_def seven_mask)

lemma GET_SIZE_list_remove:
  assumes "a \<noteq> prev_list s x" and "a \<noteq> next_list s x + WSIZE"
  shows "GET_SIZE (list_remove s x) a = GET_SIZE s a"
  using assms
  by (simp add: GET_SIZE_def GET_def list_remove_def Let_def set_next_list_def
      set_prev_list_def)

lemma PUT_PUT_same_value: "PUT (PUT s a v) b v = PUT (PUT s b v) a v"
  by (cases "a = b") (simp_all add: PUT_def fun_upd_twist)

text \<open>Case 1 and case 2 need nothing of the heap.\<close>

lemma coalesce_case1:
  assumes "GET_ALLOC s (FTRP s (PREV_BLKP s bp)) \<noteq> 0"
    and "GET_ALLOC s (HDRP (NEXT_BLKP s bp)) \<noteq> 0"
  shows "coalesce s bp = coalesce_spec s bp"
  using assms by (simp add: coalesce_def coalesce_spec_def Let_def)

lemma coalesce_case2:
  assumes "GET_ALLOC s (FTRP s (PREV_BLKP s bp)) \<noteq> 0"
    and "GET_ALLOC s (HDRP (NEXT_BLKP s bp)) = 0"
  shows "coalesce s bp = coalesce_spec s bp"
proof -
  let ?t = "GET_SIZE s (HDRP bp) + GET_SIZE s (HDRP (NEXT_BLKP s bp))"
  have al: "take_bit 3 ?t = 0" by (intro aligned_add GET_SIZE_aligned)
  have f: "FTRP (PUT (list_remove s (NEXT_BLKP s bp)) (HDRP bp) (PACK ?t 0)) bp
      = bp + ?t - DSIZE"
    by (simp add: FTRP_def GET_SIZE_PUT_free[OF al])
  show ?thesis using assms f by (simp add: coalesce_def coalesce_spec_def Let_def)
qed


lemma min_size_nonzero:
  assumes "2 * DSIZE \<le> (x :: word64)"
  shows "x \<noteq> 0" and "x \<noteq> 8"
  using assms by (auto simp: DSIZE_def WSIZE_def)

lemma addr_eq_1: "((a::word64) + x - d = a - d) = (x = 0)"
  by (simp add: algebra_simps)

lemma addr_eq_2: "((a::word64) - p - 8 = a - 16) = (p = 8)"
proof
  assume "a - p - 8 = a - 16"
  then have "a - p - 8 - a + 16 = a - 16 - a + 16" by simp
  then show "p = 8" by (simp add: algebra_simps)
next
  assume "p = 8" then show "a - p - 8 = a - 16" by simp
qed

lemma addr_eq_3: "((a::word64) - p - 8 = a - 8) = (p = 0)"
  by (simp add: algebra_simps)

lemma addr_eq_4: "((a::word64) - p - 8 = a + x - 8) = (p + x = 0)"
proof
  assume "a - p - 8 = a + x - 8"
  then have "a - p - 8 + (8 - a + p) = a + x - 8 + (8 - a + p)" by simp
  then show "p + x = 0" by (simp add: algebra_simps)
next
  assume "p + x = 0"
  then have "x = - p" by (simp add: eq_neg_iff_add_eq_0 add.commute)
  then show "a - p - 8 = a + x - 8" by simp
qed

lemma addr_eq_5: "((a::word64) + x + n - 16 = a - 16) = (x + n = 0)"
  by (simp add: algebra_simps)

lemma PREV_BLKP_cong:
  "GET_SIZE s' (bp - DSIZE) = GET_SIZE s (bp - DSIZE) \<Longrightarrow> PREV_BLKP s' bp = PREV_BLKP s bp"
  by (simp add: PREV_BLKP_def)

lemma NEXT_BLKP_cong:
  "GET_SIZE s' (HDRP bp) = GET_SIZE s (HDRP bp) \<Longrightarrow> NEXT_BLKP s' bp = NEXT_BLKP s bp"
  by (simp add: NEXT_BLKP_def HDRP_def)

lemma FTRP_cong:
  "GET_SIZE s' (HDRP bp) = GET_SIZE s (HDRP bp) \<Longrightarrow> FTRP s' bp = FTRP s bp"
  by (simp add: FTRP_def)

lemma tag_ne_footer:
  "x \<noteq> 0 \<Longrightarrow> bp - DSIZE \<noteq> bp + x - DSIZE"
  using addr_eq_1[of bp x DSIZE] by metis

lemma tag_ne_prev_header:
  "p \<noteq> 8 \<Longrightarrow> bp - DSIZE \<noteq> HDRP (bp - p)"
  using addr_eq_2[of bp p] by (simp add: HDRP_def DSIZE_def WSIZE_def)

lemma header_ne_prev_header:
  "p \<noteq> 0 \<Longrightarrow> HDRP bp \<noteq> HDRP (bp - p)"
  using addr_eq_3[of bp p] by (simp add: HDRP_def WSIZE_def)

lemma next_header_ne_prev_header:
  "p + x \<noteq> 0 \<Longrightarrow> HDRP (bp + x) \<noteq> HDRP (bp - p)"
  using addr_eq_4[of bp p x] by (simp add: HDRP_def WSIZE_def)

lemma tag_ne_next_footer:
  "x + n \<noteq> 0 \<Longrightarrow> N = bp + x \<Longrightarrow> bp - DSIZE \<noteq> N + n - DSIZE"
  using addr_eq_5[of bp x n] by (simp add: DSIZE_def WSIZE_def)

lemma merged_footer_3:
  "P = bp - p \<Longrightarrow> P + (x + p) - DSIZE = bp + x - (DSIZE :: word64)"
  by simp

lemma merged_footer_4:
  "P = bp - p \<Longrightarrow> N = bp + x \<Longrightarrow> P + (x + p + n) - DSIZE = N + n - (DSIZE :: word64)"
  by simp

lemma coalesce_case3:
  assumes pf: "GET_ALLOC s (FTRP s (PREV_BLKP s bp)) = 0"
    and na: "GET_ALLOC s (HDRP (NEXT_BLKP s bp)) \<noteq> 0"
    and tag: "GET_SIZE s (HDRP (PREV_BLKP s bp)) = GET_SIZE s (bp - DSIZE)"
    and szmin: "2 * DSIZE \<le> GET_SIZE s (HDRP bp)"
    and pmin: "2 * DSIZE \<le> GET_SIZE s (bp - DSIZE)"
    and l1: "prev_list s (PREV_BLKP s bp) \<notin> {bp - DSIZE, HDRP bp}"
    and l2: "next_list s (PREV_BLKP s bp) + WSIZE \<notin> {bp - DSIZE, HDRP bp}"
  shows "coalesce s bp = coalesce_spec s bp"
proof -
  let ?P = "PREV_BLKP s bp"
  let ?sz = "GET_SIZE s (HDRP bp)"
  let ?psz = "GET_SIZE s (bp - DSIZE)"
  let ?v = "PACK (?sz + ?psz) 0"
  let ?s1 = "list_remove s ?P"
  let ?s2 = "PUT ?s1 (FTRP s bp) ?v"
  let ?s3 = "PUT ?s2 (HDRP ?P) ?v"
  have P: "?P = bp - ?psz" by (simp add: PREV_BLKP_def)
  have sz0: "?sz \<noteq> 0" using min_size_nonzero(1)[OF szmin] .
  have p8: "?psz \<noteq> 8" using min_size_nonzero(2)[OF pmin] .
  have r1: "GET_SIZE ?s1 (HDRP bp) = ?sz"
    using l1 l2 by (intro GET_SIZE_list_remove) auto
  have r1': "GET_SIZE ?s1 (bp - DSIZE) = ?psz"
    using l1 l2 by (intro GET_SIZE_list_remove) auto
  have f1: "FTRP ?s1 bp = FTRP s bp" by (rule FTRP_cong[OF r1])
  have n2: "bp - DSIZE \<noteq> FTRP s bp"
    by (subst FTRP_def) (rule tag_ne_footer[OF sz0])
  have r2: "GET_SIZE ?s2 (bp - DSIZE) = ?psz"
    by (simp only: GET_SIZE_PUT_other[OF n2] r1')
  have p2: "PREV_BLKP ?s2 bp = ?P" by (rule PREV_BLKP_cong[OF r2])
  have n3: "bp - DSIZE \<noteq> HDRP ?P"
    by (subst P) (rule tag_ne_prev_header[OF p8])
  have r3: "GET_SIZE ?s3 (bp - DSIZE) = ?psz"
    by (simp only: GET_SIZE_PUT_other[OF n3] r2)
  have p3: "PREV_BLKP ?s3 bp = ?P" by (rule PREV_BLKP_cong[OF r3])
  have code: "coalesce s bp = (list_insert ?s3 ?P (?sz + ?psz), ?P)"
    unfolding coalesce_def Let_def
    using pf na by (simp only: tag f1 p2 p3 simp_thms if_True if_False)
  have ft: "?P + (?sz + ?psz) - DSIZE = FTRP s bp"
    unfolding FTRP_def by (rule merged_footer_3[OF P])
  have spec: "coalesce_spec s bp =
      (list_insert (PUT (PUT ?s1 (HDRP ?P) ?v) (FTRP s bp) ?v) ?P (?sz + ?psz), ?P)"
    unfolding coalesce_spec_def Let_def
    using pf na by (simp only: tag ft simp_thms if_True if_False add_0_right)
  show ?thesis unfolding code spec by (simp only: PUT_PUT_same_value)
qed

lemma no_wrap_sum:
  fixes a b :: word64
  assumes "unat a + unat b < 2 ^ 64" and "b \<noteq> 0"
  shows "a + b \<noteq> 0"
proof -
  have "unat (a + b) = unat a + unat b"
    using assms(1) by (subst unat_add_lem[THEN iffD1]) simp_all
  moreover have "0 < unat b" using assms(2) by (simp add: unat_gt_0)
  ultimately have "unat (a + b) \<noteq> 0" by simp
  then show ?thesis by auto
qed

lemma prev_list_list_remove:
  "prev_list (list_remove s x) y =
     (if y = next_list s x then prev_list s x
      else if y + WSIZE = prev_list s x then next_list s x
      else prev_list s y)"
  by (simp add: prev_list_def next_list_def list_remove_def Let_def set_next_list_def
      set_prev_list_def)

lemma next_list_list_remove:
  "next_list (list_remove s x) y =
     (if y = next_list s x + WSIZE then prev_list s x
      else if y = prev_list s x then next_list s x
      else next_list s y)"
  by (simp add: prev_list_def next_list_def list_remove_def Let_def set_next_list_def
      set_prev_list_def)

lemma coalesce_case4:
  assumes pf: "GET_ALLOC s (FTRP s (PREV_BLKP s bp)) = 0"
    and nf: "GET_ALLOC s (HDRP (NEXT_BLKP s bp)) = 0"
    and tagp: "GET_SIZE s (HDRP (PREV_BLKP s bp)) = GET_SIZE s (bp - DSIZE)"
    and tagn: "GET_SIZE s (FTRP s (NEXT_BLKP s bp)) = GET_SIZE s (HDRP (NEXT_BLKP s bp))"
    and szmin: "2 * DSIZE \<le> GET_SIZE s (HDRP bp)"
    and pmin: "2 * DSIZE \<le> GET_SIZE s (bp - DSIZE)"
    and wp: "unat (GET_SIZE s (bp - DSIZE)) \<le> unat bp"
    and wn: "unat bp + unat (GET_SIZE s (HDRP bp))
               + unat (GET_SIZE s (HDRP (NEXT_BLKP s bp))) < 2 ^ 64"
    and l1: "prev_list s (PREV_BLKP s bp) \<notin> {bp - DSIZE, HDRP bp, HDRP (NEXT_BLKP s bp)}"
    and l2: "next_list s (PREV_BLKP s bp) + WSIZE
               \<notin> {bp - DSIZE, HDRP bp, HDRP (NEXT_BLKP s bp)}"
    and l3: "prev_list s (NEXT_BLKP s bp) \<notin> {bp - DSIZE, HDRP bp, HDRP (NEXT_BLKP s bp)}"
    and l4: "next_list s (NEXT_BLKP s bp) + WSIZE
               \<notin> {bp - DSIZE, HDRP bp, HDRP (NEXT_BLKP s bp)}"
    and o1: "prev_list s (PREV_BLKP s bp) \<noteq> NEXT_BLKP s bp + WSIZE"
    and o2: "next_list s (PREV_BLKP s bp) + WSIZE \<noteq> NEXT_BLKP s bp"
  shows "coalesce s bp = coalesce_spec s bp"
proof -
  let ?P = "PREV_BLKP s bp"
  let ?N = "NEXT_BLKP s bp"
  let ?sz = "GET_SIZE s (HDRP bp)"
  let ?psz = "GET_SIZE s (bp - DSIZE)"
  let ?nsz = "GET_SIZE s (HDRP ?N)"
  let ?t = "?sz + ?psz + ?nsz"
  let ?v = "PACK ?t 0"
  let ?s1 = "list_remove s ?P"
  let ?s2 = "list_remove ?s1 ?N"
  let ?s3 = "PUT ?s2 (HDRP ?P) ?v"
  let ?s4 = "PUT ?s3 (FTRP s ?N) ?v"
  have P: "?P = bp - ?psz" by (simp add: PREV_BLKP_def)
  have N: "?N = bp + ?sz" by (simp add: NEXT_BLKP_def HDRP_def)
  have sz0: "?sz \<noteq> 0" using min_size_nonzero(1)[OF szmin] .
  have p0: "?psz \<noteq> 0" using min_size_nonzero(1)[OF pmin] .
  have p8: "?psz \<noteq> 8" using min_size_nonzero(2)[OF pmin] .
  have ps0: "?psz + ?sz \<noteq> 0" using wp wn sz0 by (intro no_wrap_sum) simp_all
  have sn0: "?sz + ?nsz \<noteq> 0"
  proof -
    have "?nsz + ?sz \<noteq> 0" using wn sz0 by (intro no_wrap_sum) simp_all
    then show ?thesis by (simp add: add.commute)
  qed
  txt \<open>The first unlinking leaves the three tags.\<close>
  have a1: "GET_SIZE ?s1 (bp - DSIZE) = ?psz"
    using l1 l2 by (intro GET_SIZE_list_remove) auto
  have b1: "GET_SIZE ?s1 (HDRP bp) = ?sz"
    using l1 l2 by (intro GET_SIZE_list_remove) auto
  have c1: "GET_SIZE ?s1 (HDRP ?N) = ?nsz"
    using l1 l2 by (intro GET_SIZE_list_remove) auto
  have n1: "NEXT_BLKP ?s1 bp = ?N" by (rule NEXT_BLKP_cong[OF b1])
  txt \<open>The links of the successor after the first unlinking.\<close>
  have pl: "prev_list ?s1 ?N = prev_list s ?P \<or> prev_list ?s1 ?N = prev_list s ?N"
    using o1 by (auto simp: prev_list_list_remove)
  have nl: "next_list ?s1 ?N = next_list s ?P \<or> next_list ?s1 ?N = next_list s ?N"
    using o2 by (auto simp: next_list_list_remove)
  have q1: "prev_list ?s1 ?N \<notin> {bp - DSIZE, HDRP bp, HDRP ?N}"
    using pl l1 l3 by metis
  have q2: "next_list ?s1 ?N + WSIZE \<notin> {bp - DSIZE, HDRP bp, HDRP ?N}"
    using nl l2 l4 by metis
  have a2: "GET_SIZE ?s2 (bp - DSIZE) = ?psz"
    using q1 q2 by (subst GET_SIZE_list_remove) (auto simp: a1)
  have b2: "GET_SIZE ?s2 (HDRP bp) = ?sz"
    using q1 q2 by (subst GET_SIZE_list_remove) (auto simp: b1)
  have c2: "GET_SIZE ?s2 (HDRP ?N) = ?nsz"
    using q1 q2 by (subst GET_SIZE_list_remove) (auto simp: c1)
  have p2: "PREV_BLKP ?s2 bp = ?P" by (rule PREV_BLKP_cong[OF a2])
  txt \<open>The header of the merged block is none of the three tags.\<close>
  have d1: "bp - DSIZE \<noteq> HDRP ?P"
    by (subst P) (rule tag_ne_prev_header[OF p8])
  have d2: "HDRP bp \<noteq> HDRP ?P"
    by (subst P) (rule header_ne_prev_header[OF p0])
  have d3: "HDRP ?N \<noteq> HDRP ?P"
    by (subst P, subst N) (rule next_header_ne_prev_header[OF ps0])
  have a3: "GET_SIZE ?s3 (bp - DSIZE) = ?psz" by (simp only: GET_SIZE_PUT_other[OF d1] a2)
  have b3: "GET_SIZE ?s3 (HDRP bp) = ?sz" by (simp only: GET_SIZE_PUT_other[OF d2] b2)
  have c3: "GET_SIZE ?s3 (HDRP ?N) = ?nsz" by (simp only: GET_SIZE_PUT_other[OF d3] c2)
  have n3: "NEXT_BLKP ?s3 bp = ?N" by (rule NEXT_BLKP_cong[OF b3])
  have f3: "FTRP ?s3 ?N = FTRP s ?N" by (rule FTRP_cong[OF c3])
  have d4: "bp - DSIZE \<noteq> FTRP s ?N"
    by (subst FTRP_def) (rule tag_ne_next_footer[OF sn0 N])
  have a4: "GET_SIZE ?s4 (bp - DSIZE) = ?psz" by (simp only: GET_SIZE_PUT_other[OF d4] a3)
  have p4: "PREV_BLKP ?s4 bp = ?P" by (rule PREV_BLKP_cong[OF a4])
  have code: "coalesce s bp = (list_insert ?s4 ?P ?t, ?P)"
    unfolding coalesce_def Let_def
    using pf nf by (simp only: tagp tagn n1 p2 n3 f3 p4 simp_thms if_True if_False)
  have ft: "?P + ?t - DSIZE = FTRP s ?N"
    by (subst FTRP_def) (rule merged_footer_4[OF P N])
  have spec: "coalesce_spec s bp = (list_insert ?s4 ?P ?t, ?P)"
    unfolding coalesce_spec_def Let_def
    using pf nf by (simp only: tagp ft simp_thms if_True if_False)
  show ?thesis unfolding code spec ..
qed


lemma coalesce_refines_spec:
  assumes wf: "coalesce_wf s bp"
  shows "coalesce s bp = coalesce_spec s bp"
proof -
  let ?pf = "GET_ALLOC s (FTRP s (PREV_BLKP s bp)) = 0"
  let ?nf = "GET_ALLOC s (HDRP (NEXT_BLKP s bp)) = 0"
  from wf have szmin: "2 * DSIZE \<le> GET_SIZE s (HDRP bp)"
    by (simp add: coalesce_wf_def Let_def)
  show ?thesis
  proof (cases ?pf)
    case pf: True
    from wf pf have tagp: "GET_SIZE s (HDRP (PREV_BLKP s bp)) = GET_SIZE s (bp - DSIZE)"
      and pmin: "2 * DSIZE \<le> GET_SIZE s (bp - DSIZE)"
      and wp: "unat (GET_SIZE s (bp - DSIZE)) \<le> unat bp"
      and l1: "prev_list s (PREV_BLKP s bp) \<notin> {bp - DSIZE, HDRP bp, HDRP (NEXT_BLKP s bp)}"
      and l2: "next_list s (PREV_BLKP s bp) + WSIZE
                 \<notin> {bp - DSIZE, HDRP bp, HDRP (NEXT_BLKP s bp)}"
      by (simp_all add: coalesce_wf_def Let_def)
    show ?thesis
    proof (cases ?nf)
      case nf: True
      from wf nf have tagn: "GET_SIZE s (FTRP s (NEXT_BLKP s bp))
            = GET_SIZE s (HDRP (NEXT_BLKP s bp))"
        and wn: "unat bp + unat (GET_SIZE s (HDRP bp))
               + unat (GET_SIZE s (HDRP (NEXT_BLKP s bp))) < 2 ^ 64"
        and l3: "prev_list s (NEXT_BLKP s bp)
                   \<notin> {bp - DSIZE, HDRP bp, HDRP (NEXT_BLKP s bp)}"
        and l4: "next_list s (NEXT_BLKP s bp) + WSIZE
                   \<notin> {bp - DSIZE, HDRP bp, HDRP (NEXT_BLKP s bp)}"
        by (simp_all add: coalesce_wf_def Let_def)
      from wf pf nf have o1: "prev_list s (PREV_BLKP s bp) \<noteq> NEXT_BLKP s bp + WSIZE"
        and o2: "next_list s (PREV_BLKP s bp) + WSIZE \<noteq> NEXT_BLKP s bp"
        by (simp_all add: coalesce_wf_def Let_def)
      show ?thesis
        by (rule coalesce_case4[OF pf nf tagp tagn szmin pmin wp wn l1 l2 l3 l4 o1 o2])
    next
      case na: False
      have l1': "prev_list s (PREV_BLKP s bp) \<notin> {bp - DSIZE, HDRP bp}" using l1 by simp
      have l2': "next_list s (PREV_BLKP s bp) + WSIZE \<notin> {bp - DSIZE, HDRP bp}"
        using l2 by simp
      show ?thesis by (rule coalesce_case3[OF pf na tagp szmin pmin l1' l2'])
    qed
  next
    case pa: False
    show ?thesis
    proof (cases ?nf)
      case True
      then show ?thesis using pa by (intro coalesce_case2)
    next
      case False
      then show ?thesis using pa by (intro coalesce_case1)
    qed
  qed
qed

text \<open>
  Claim C4. Called on a newly freed block whose neighbourhood is well formed
  (\<open>coalesce_wf\<close>), \<open>coalesce\<close> does what the spec describes (\<open>coalesce_spec\<close>): it removes
  whichever of the two physically adjacent blocks are Free from their lists and merges
  them with the block; it returns the address of the predecessor when the predecessor
  was absorbed and the address it was given otherwise; and its last step is the
  \<open>list_insert\<close> of the resulting block into the class of the sum of the sizes. Its two
  callers add no insertion of their own: \<open>mm_free\<close> ends with the call of \<open>coalesce\<close>, and
  \<open>extend_heap\<close> returns what \<open>coalesce\<close> returns.
\<close>

theorem coalesce_merges_and_inserts:
  assumes wf: "coalesce_wf s bp"
  shows "coalesce s bp = coalesce_spec s bp
       \<and> snd (coalesce s bp) =
           (if GET_ALLOC s (FTRP s (PREV_BLKP s bp)) = 0 then PREV_BLKP s bp else bp)
       \<and> (\<exists>s'. fst (coalesce s bp) =
             list_insert s' (snd (coalesce s bp))
               (GET_SIZE s (HDRP bp)
                + (if GET_ALLOC s (FTRP s (PREV_BLKP s bp)) = 0
                   then GET_SIZE s (HDRP (PREV_BLKP s bp)) else 0)
                + (if GET_ALLOC s (HDRP (NEXT_BLKP s bp)) = 0
                   then GET_SIZE s (HDRP (NEXT_BLKP s bp)) else 0)))
       \<and> mm_free s0 p =
           (if p = NULL then s0
            else fst (coalesce
                (PUT (PUT s0 (HDRP p) (PACK (GET_SIZE s0 (HDRP p)) 0))
                   (FTRP (PUT s0 (HDRP p) (PACK (GET_SIZE s0 (HDRP p)) 0)) p)
                   (PACK (GET_SIZE s0 (HDRP p)) 0)) p))
       \<and> extend_heap s0 words =
           (if snd (mem_sbrk s0
                 (if words mod 2 \<noteq> 0 then (words + 1) * WSIZE else words * WSIZE)) = - 1
            then (fst (mem_sbrk s0
                 (if words mod 2 \<noteq> 0 then (words + 1) * WSIZE else words * WSIZE)), NULL)
            else coalesce (fst (extend_heap_tags s0 words)) (snd (extend_heap_tags s0 words)))"
proof -
  have e: "coalesce s bp = coalesce_spec s bp" by (rule coalesce_refines_spec[OF wf])
  have r: "snd (coalesce_spec s bp) =
           (if GET_ALLOC s (FTRP s (PREV_BLKP s bp)) = 0 then PREV_BLKP s bp else bp)"
    by (simp add: coalesce_spec_def Let_def)
  have i: "\<exists>s'. fst (coalesce_spec s bp) =
             list_insert s' (snd (coalesce_spec s bp))
               (GET_SIZE s (HDRP bp)
                + (if GET_ALLOC s (FTRP s (PREV_BLKP s bp)) = 0
                   then GET_SIZE s (HDRP (PREV_BLKP s bp)) else 0)
                + (if GET_ALLOC s (HDRP (NEXT_BLKP s bp)) = 0
                   then GET_SIZE s (HDRP (NEXT_BLKP s bp)) else 0))"
    unfolding coalesce_spec_def Let_def fst_conv snd_conv by (rule exI) (rule refl)
  have f: "mm_free s0 p =
           (if p = NULL then s0
            else fst (coalesce
                (PUT (PUT s0 (HDRP p) (PACK (GET_SIZE s0 (HDRP p)) 0))
                   (FTRP (PUT s0 (HDRP p) (PACK (GET_SIZE s0 (HDRP p)) 0)) p)
                   (PACK (GET_SIZE s0 (HDRP p)) 0)) p))"
    by (simp add: mm_free_def Let_def)
  have x: "extend_heap s0 words =
           (if snd (mem_sbrk s0
                 (if words mod 2 \<noteq> 0 then (words + 1) * WSIZE else words * WSIZE)) = - 1
            then (fst (mem_sbrk s0
                 (if words mod 2 \<noteq> 0 then (words + 1) * WSIZE else words * WSIZE)), NULL)
            else coalesce (fst (extend_heap_tags s0 words)) (snd (extend_heap_tags s0 words)))"
    unfolding extend_heap_def extend_heap_tags_def Let_def
    by (simp add: case_prod_beta)
  show ?thesis using e r i f x by simp
qed

theorem coalesce_merges_and_inserts_witness:
  "coalesce_wf heap_at_coalesce 0x100E0
   \<and> GET_ALLOC heap_at_coalesce (FTRP heap_at_coalesce (PREV_BLKP heap_at_coalesce 0x100E0)) = 0
   \<and> GET_ALLOC heap_at_coalesce (HDRP (NEXT_BLKP heap_at_coalesce 0x100E0)) = 0
   \<and> coalesce heap_at_coalesce 0x100E0 = coalesce_spec heap_at_coalesce 0x100E0
   \<and> snd (coalesce heap_at_coalesce 0x100E0) = PREV_BLKP heap_at_coalesce 0x100E0
   \<and> snd (coalesce heap_at_coalesce 0x100E0) = 0x100C0
   \<and> GET (fst (coalesce heap_at_coalesce 0x100E0)) (HDRP 0x100C0) = PACK 4096 0
   \<and> class_nodes 3 (fst (coalesce heap_at_coalesce 0x100E0)) (seg_index 4096)
        = Some [0x100C0]"
proof -
  have h: "coalesce_wf heap_at_coalesce 0x100E0"
    unfolding heap_at_coalesce_eval coalesce_wf_def by (simp add: alloc_defs)
  have a1: "GET_ALLOC heap_at_coalesce
      (FTRP heap_at_coalesce (PREV_BLKP heap_at_coalesce 0x100E0)) = 0"
    unfolding heap_at_coalesce_eval by (simp add: alloc_defs)
  have a2: "GET_ALLOC heap_at_coalesce (HDRP (NEXT_BLKP heap_at_coalesce 0x100E0)) = 0"
    unfolding heap_at_coalesce_eval by (simp add: alloc_defs)
  note t = coalesce_merges_and_inserts[OF h, of heap_at_coalesce NULL 0]
  have c1: "coalesce heap_at_coalesce 0x100E0 = coalesce_spec heap_at_coalesce 0x100E0"
    using t by (rule conjunct1)
  have r: "snd (coalesce heap_at_coalesce 0x100E0) =
      (if GET_ALLOC heap_at_coalesce
            (FTRP heap_at_coalesce (PREV_BLKP heap_at_coalesce 0x100E0)) = 0
       then PREV_BLKP heap_at_coalesce 0x100E0 else 0x100E0)"
    using t by (rule conjunct2[THEN conjunct1])
  have c2: "snd (coalesce heap_at_coalesce 0x100E0) = PREV_BLKP heap_at_coalesce 0x100E0"
    by (simp only: r a1 simp_thms if_True)
  have c3: "snd (coalesce heap_at_coalesce 0x100E0) = 0x100C0"
    by (simp add: coalesce_both_eval)
  have c4: "GET (fst (coalesce heap_at_coalesce 0x100E0)) (HDRP 0x100C0) = PACK 4096 0"
    unfolding coalesce_both_eval by (simp add: alloc_defs)
  have c5: "class_nodes 3 (fst (coalesce heap_at_coalesce 0x100E0)) (seg_index 4096)
        = Some [0x100C0]"
    unfolding coalesce_both_eval class_nodes_def
    by (simp add: alloc_defs list_nodes_numeral)
  show ?thesis by (intro conjI) (rule h a1 a2 c1 c2 c3 c4 c5)+
qed

section \<open>The adjacency scan of checkheap\<close>

lemma checkheap_scan_stuck:
  assumes "GET_SIZE s (nxt - WSIZE) = 0" and "start \<noteq> nxt"
  shows "\<not> snd (checkheap_scan k s start cur nxt)"
  using assms
proof (induction k arbitrary: cur)
  case 0
  then show ?case by simp
next
  case (Suc k)
  have n: "NEXT_BLKP s nxt = nxt" using Suc.prems(1) by (simp add: NEXT_BLKP_def)
  show ?case using Suc.IH[OF Suc.prems, of nxt] Suc.prems(2)
    by (simp add: n Let_def case_prod_beta)
qed

lemma checkheap_never_leaves_fresh_heap: "\<not> snd (checkheap_adjacent k heap_init)"
proof -
  have st: "\<not> snd (checkheap_scan j heap_init 0x100B0 c 0x110C0)" for j c
    by (rule checkheap_scan_stuck) (simp_all add: heap_init_eval alloc_defs)
  have hl: "heap_listp heap_init = 0x100B0" by (simp add: heap_init_eval)
  have n1: "NEXT_BLKP heap_init 0x100B0 = 0x100C0" by (simp add: heap_init_eval alloc_defs)
  have n2: "NEXT_BLKP heap_init 0x100C0 = 0x110C0" by (simp add: heap_init_eval alloc_defs)
  have n3: "NEXT_BLKP heap_init 0x110C0 = 0x110C0" by (simp add: heap_init_eval alloc_defs)
  show ?thesis
  proof (cases k)
    case 0
    then show ?thesis by (simp add: checkheap_adjacent_def hl n1)
  next
    case (Suc j)
    show ?thesis
    proof (cases j)
      case 0
      then show ?thesis using Suc by (simp add: checkheap_adjacent_def hl n1 n2 Let_def case_prod_beta)
    next
      case (Suc i)
      then show ?thesis using \<open>k = Suc j\<close> st[of i "0x110C0"]
        by (simp add: checkheap_adjacent_def hl n1 n2 n3 Let_def case_prod_beta)
    qed
  qed
qed

text \<open>
  Claim C5 fails on the code. The loop of lines 480-485 reads the words at the payload
  addresses \<open>current\<close> and \<open>next\<close> (not the headers) and prints when the first has its low
  bit set and the second has not. On the heap right after \<open>mm_init\<close>, whose blocks are the
  allocated prologue and one Free block (so that no two adjacent blocks are Free), the
  first iteration prints the diagnostic; and the loop never ends, whatever the number of
  iterations, because \<open>next\<close> stays at the epilogue.
\<close>

theorem checkheap_reports_on_fresh_heap:
  "heap_blocks 3 heap_init (heap_listp heap_init)
     = Some [(0x100B0, 16, True), (0x100C0, 4096, False)]
   \<and> checkheap_adjacent 1 heap_init = (1, False)
   \<and> (\<forall>k. \<not> snd (checkheap_adjacent k heap_init))"
proof -
  have c1: "heap_blocks 3 heap_init (heap_listp heap_init)
     = Some [(0x100B0, 16, True), (0x100C0, 4096, False)]"
    unfolding heap_init_eval by (simp add: alloc_defs heap_blocks_numeral)
  have c2: "checkheap_adjacent 1 heap_init = (1, False)"
    unfolding heap_init_eval checkheap_adjacent_def by (simp add: alloc_defs)
  show ?thesis using c1 c2 checkheap_never_leaves_fresh_heap by blast
qed

section \<open>Free-list membership\<close>

text \<open>
  Claim C3 fails on the code. A request of \<open>SIZE_MAX\<close> bytes makes the size adjustment of
  lines 164-165 wrap around to 16, and \<open>mm_malloc\<close> hands out a block of 16 bytes, below the
  minimum block size, whose footer is its first payload word. After a second allocation
  (16 bytes, the block at \<open>0x100D0\<close>) the first block is freed: \<open>list_insert\<close> writes its
  \<open>prev_list\<close> pointer over the header of the block at \<open>0x100D0\<close>. That block, still
  allocated to the caller, now has a header that marks it Free (with size \<open>0x10000\<close>), and
  it is a node of no size-class list.
\<close>

theorem overflowing_request_breaks_membership:
  "mm_init heap0 = (heap_init, 0)
   \<and> malloc_ptr heap_init 0xFFFFFFFFFFFFFFFF = 0x100C0
   \<and> malloc_ptr (malloc_state heap_init 0xFFFFFFFFFFFFFFFF) 16 = 0x100D0
   \<and> GET (malloc_state (malloc_state heap_init 0xFFFFFFFFFFFFFFFF) 16) (HDRP 0x100D0)
        = PACK 32 1
   \<and> GET heap_overflowed (HDRP 0x100D0) = 0x10000
   \<and> GET_ALLOC heap_overflowed (HDRP 0x100D0) = 0
   \<and> heap_blocks 4 heap_overflowed (heap_listp heap_overflowed)
        = Some [(0x100B0, 16, True), (0x100C0, 16, False), (0x100D0, 0x10000, False)]
   \<and> map (class_nodes 3 heap_overflowed) [0, 1, 2, 3, 4, 5, 6, 7, 8, 9]
        = [Some [0x100C0], Some [], Some [], Some [], Some [], Some [], Some [],
           Some [0x100F0], Some [], Some []]"
proof -
  have c0: "mm_init heap0 = (heap_init, 0)"
    unfolding heap_init_eval by (simp add: alloc_defs heap0_def cong: eval_congs)
  have c1: "malloc_ptr heap_init 0xFFFFFFFFFFFFFFFF = 0x100C0"
    unfolding malloc_ptr_def malloc_max_eval by simp
  have c2: "malloc_ptr (malloc_state heap_init 0xFFFFFFFFFFFFFFFF) 16 = 0x100D0"
    unfolding malloc_ptr_def malloc_max_16_eval by simp
  have c3: "GET (malloc_state (malloc_state heap_init 0xFFFFFFFFFFFFFFFF) 16) (HDRP 0x100D0)
        = PACK 32 1"
    unfolding malloc_state_def[of "malloc_state heap_init 0xFFFFFFFFFFFFFFFF"]
      malloc_max_16_eval
    by (simp add: alloc_defs)
  have c4: "GET heap_overflowed (HDRP 0x100D0) = 0x10000"
    unfolding heap_overflowed_eval by (simp add: alloc_defs)
  have c5: "GET_ALLOC heap_overflowed (HDRP 0x100D0) = 0"
    unfolding heap_overflowed_eval by (simp add: alloc_defs)
  have c6: "heap_blocks 4 heap_overflowed (heap_listp heap_overflowed)
        = Some [(0x100B0, 16, True), (0x100C0, 16, False), (0x100D0, 0x10000, False)]"
    unfolding heap_overflowed_eval by (simp add: alloc_defs heap_blocks_numeral)
  have c7: "map (class_nodes 3 heap_overflowed) [0, 1, 2, 3, 4, 5, 6, 7, 8, 9]
        = [Some [0x100C0], Some [], Some [], Some [], Some [], Some [], Some [],
           Some [0x100F0], Some [], Some []]"
    unfolding heap_overflowed_eval class_nodes_def
    by (simp add: alloc_defs list_nodes_numeral)
  show ?thesis by (intro conjI) (rule c0 c1 c2 c3 c4 c5 c6 c7)+
qed

end
